theory Spec2Isabelle
  imports Main "HOL-Library.Word"
begin

section \<open>The data of \<^verbatim>\<open>jinja2/_speedups.c\<close>\<close>

text \<open>
  \<^verbatim>\<open>Py_UNICODE\<close> is an unsigned code unit (CPython only uses \<^verbatim>\<open>wchar_t\<close> for it when that
  type is unsigned); the wide build's 32 bits are taken here. \<^verbatim>\<open>Py_ssize_t\<close> is a signed
  size, 64 bits wide on the builds considered: it is modelled by \<open>int\<close>, and the lemma
  \<open>scan_pass_bounds\<close> below shows that the sums the code computes stay within four times
  the length of the input (so the size it asks for within five times), which no string
  that fits in memory brings near the end of that range. A pointer into a buffer is the
  offset from the buffer's start.
\<close>

type_synonym Py_UNICODE = "32 word"
type_synonym Py_ssize_t = int
type_synonym addr = nat

definition ESCAPED_CHARS_TABLE_SIZE :: nat where
  "ESCAPED_CHARS_TABLE_SIZE = 63"

datatype error =
    MemoryError          \<comment> \<open>an allocation returned \<^verbatim>\<open>NULL\<close>\<close>
  | ReadOutOfBounds      \<comment> \<open>a read past the end of a unicode buffer\<close>
  | WriteOutOfBounds     \<comment> \<open>a write past the end of a unicode buffer\<close>
  | TableOutOfBounds     \<comment> \<open>a read past the end of one of the two escape tables\<close>
  | NullPointer          \<comment> \<open>a \<^verbatim>\<open>NULL\<close> or dangling pointer dereferenced\<close>
  | PyException          \<comment> \<open>a Python exception raised by code called from here\<close>

text \<open>
  \<^verbatim>\<open>PyUnicodeObject\<close>: \<open>str\<close> is the buffer, which CPython allocates with one cell more than
  \<open>length\<close> and ends with a zero cell.
\<close>

record PyUnicodeObject =
  length_u :: nat
  str :: "Py_UNICODE list"

definition PyUnicode_wf :: "PyUnicodeObject \<Rightarrow> bool" where
  "PyUnicode_wf u \<longleftrightarrow> length (str u) = length_u u + 1 \<and> str u ! length_u u = 0"

definition text_of :: "PyUnicodeObject \<Rightarrow> Py_UNICODE list" where
  "text_of u = take (length_u u) (str u)"

definition unicode_of_text :: "Py_UNICODE list \<Rightarrow> PyUnicodeObject" where
  "unicode_of_text xs = \<lparr>length_u = length xs, str = xs @ [0]\<rparr>"

text \<open>
  The Python values the three entry points distinguish. A float or a complex number is
  represented by the text CPython's formatting gives it (floating point itself is not
  modelled). Any other object is described by what the functions can observe of it: what
  a call of its \<^verbatim>\<open>__html__\<close> attribute returns, if it has the attribute, and what its text
  conversion yields.
\<close>

datatype PyObject =
    PyInt int
  | PyLong int
  | PyFloat "Py_UNICODE list"
  | PyComplex "Py_UNICODE list"
  | PyBool bool
  | Py_None
  | PyUnicode PyUnicodeObject
  | Markup PyUnicodeObject
  | PyOther (ob_html: "(error + PyObject) option") (ob_unicode: "error + Py_UNICODE list")

text \<open>
  What the module calls: the class \<^verbatim>\<open>jinja2.utils.Markup\<close>, and the bound method that
  \<^verbatim>\<open>PyObject_GetAttrString(text, "__html__")\<close> returns for the object at an address.
\<close>

datatype py_callable = Markup_class | Bound_html addr

text \<open>
  The interpreter's state: the heap (an address is an index; a cell holds the reference
  count and the object, or \<open>None\<close> once freed), the number of buffer cells the allocator
  can still hand out, the contents of memory that was allocated and not yet written, and
  the three static variables of the module.
\<close>

record py_state =
  heap :: "(nat \<times> PyObject) option list"
  mem_avail :: nat
  uninit :: "nat \<Rightarrow> Py_UNICODE"
  markup :: "py_callable option"
  escaped_chars_delta_len :: "Py_ssize_t list"
  escaped_chars_repl :: "Py_UNICODE list option list"

definition obj_at :: "py_state \<Rightarrow> addr \<Rightarrow> PyObject option" where
  "obj_at st a = (if a < length (heap st) then map_option snd (heap st ! a) else None)"

definition refcnt_at :: "py_state \<Rightarrow> addr \<Rightarrow> nat option" where
  "refcnt_at st a = (if a < length (heap st) then map_option fst (heap st ! a) else None)"

fun cells_of :: "PyObject \<Rightarrow> nat" where
  "cells_of (PyUnicode u) = length (str u)"
| "cells_of (Markup u) = length (str u)"
| "cells_of _ = 0"

definition Py_INCREF :: "py_state \<Rightarrow> addr \<Rightarrow> py_state" where
  "Py_INCREF st a =
     (if a < length (heap st)
      then st\<lparr>heap := (heap st)[a := map_option (\<lambda>(rc, ob). (rc + 1, ob)) (heap st ! a)]\<rparr>
      else st)"

definition Py_DECREF :: "py_state \<Rightarrow> addr \<Rightarrow> py_state" where
  "Py_DECREF st a =
     (if a < length (heap st) then
        (case heap st ! a of
           None \<Rightarrow> st
         | Some (rc, ob) \<Rightarrow>
             if rc \<le> 1
             then st\<lparr>heap := (heap st)[a := None], mem_avail := mem_avail st + cells_of ob\<rparr>
             else st\<lparr>heap := (heap st)[a := Some (rc - 1, ob)]\<rparr>)
      else st)"

text \<open>
  \<^verbatim>\<open>PyUnicode_FromUnicode(NULL, sz)\<close>: a new unicode object with reference count 1 whose
  buffer has \<open>sz + 1\<close> cells, the last one zero and the others not initialised; \<open>None\<close>
  (for \<^verbatim>\<open>NULL\<close>) when the memory is not there.
\<close>

definition PyUnicode_FromUnicode_NULL :: "py_state \<Rightarrow> Py_ssize_t \<Rightarrow> (addr \<times> py_state) option" where
  "PyUnicode_FromUnicode_NULL st sz =
     (if sz < 0 \<or> mem_avail st < nat sz + 1 then None
      else Some (length (heap st),
        st\<lparr>heap := heap st @
               [Some (1, PyUnicode \<lparr>length_u = nat sz,
                                    str = map (uninit st) [0..<nat sz] @ [0]\<rparr>)],
           mem_avail := mem_avail st - (nat sz + 1)\<rparr>))"

text \<open>
  \<^verbatim>\<open>Py_UNICODE_COPY(target, source, length)\<close> is \<^verbatim>\<open>memcpy\<close>: \<open>n\<close> cells from offset \<open>sp\<close> of
  \<open>source\<close> to offset \<open>tp\<close> of \<open>target\<close>. A negative \<open>n\<close> is a huge \<^verbatim>\<open>size_t\<close>.
\<close>

definition Py_UNICODE_COPY ::
  "Py_UNICODE list \<Rightarrow> nat \<Rightarrow> Py_UNICODE list \<Rightarrow> nat \<Rightarrow> Py_ssize_t \<Rightarrow> error + Py_UNICODE list" where
  "Py_UNICODE_COPY target tp source sp n =
     (if n < 0 \<or> length source < sp + nat n then Inl ReadOutOfBounds
      else if length target < tp + nat n then Inl WriteOutOfBounds
      else Inr (take tp target @ take (nat n) (drop sp source) @ drop (tp + nat n) target))"

section \<open>\<^verbatim>\<open>init_constants\<close>\<close>

text \<open>
  \<^verbatim>\<open>UNICHR(x)\<close> is the buffer of the unicode object that \<^verbatim>\<open>PyUnicode_DecodeASCII\<close> makes
  of the C string \<open>x\<close>.
\<close>

definition UNICHR :: "string \<Rightarrow> Py_UNICODE list" where
  "UNICHR x = map of_char x @ [0]"

text \<open>The five characters, as the indices the C character literals are.\<close>

definition chr_quot :: Py_UNICODE where "chr_quot = of_char (CHR 0x22)"
definition chr_apos :: Py_UNICODE where "chr_apos = of_char (CHR 0x27)"
definition chr_amp :: Py_UNICODE where "chr_amp = of_char (CHR ''&'')"
definition chr_lt :: Py_UNICODE where "chr_lt = of_char (CHR ''<'')"
definition chr_gt :: Py_UNICODE where "chr_gt = of_char (CHR ''>'')"

text \<open>The static storage of the module before \<^verbatim>\<open>init_constants\<close> runs: all zero.\<close>

definition static_init :: "py_state \<Rightarrow> py_state" where
  "static_init st =
     st\<lparr>markup := None,
        escaped_chars_delta_len := replicate ESCAPED_CHARS_TABLE_SIZE 0,
        escaped_chars_repl := replicate ESCAPED_CHARS_TABLE_SIZE None\<rparr>"

text \<open>
  \<open>jinja2_utils\<close> is what importing \<^verbatim>\<open>jinja2.utils\<close> gives: \<open>None\<close> when the import fails,
  otherwise the module's \<^verbatim>\<open>Markup\<close> attribute (\<open>None\<close> when the attribute is missing: the
  code does not check it). The result is the C function's \<^verbatim>\<open>int\<close> and the new state.
\<close>

definition init_constants :: "py_callable option option \<Rightarrow> py_state \<Rightarrow> int \<times> py_state" where
  "init_constants jinja2_utils st =
     (let repl = (escaped_chars_repl st)
            [unat chr_quot := Some (UNICHR ''&#34;''),
             unat chr_apos := Some (UNICHR ''&#39;''),
             unat chr_amp := Some (UNICHR ''&amp;''),
             unat chr_lt := Some (UNICHR ''&lt;''),
             unat chr_gt := Some (UNICHR ''&gt;'')];
          dlen = (replicate (length (escaped_chars_delta_len st)) 0)
            [unat chr_amp := 4, unat chr_apos := 4, unat chr_quot := 4,
             unat chr_gt := 3, unat chr_lt := 3];
          st1 = st\<lparr>escaped_chars_repl := repl, escaped_chars_delta_len := dlen\<rparr>
      in case jinja2_utils of
           None \<Rightarrow> (0, st1)
         | Some m \<Rightarrow> (1, st1\<lparr>markup := m\<rparr>))"

text \<open>
  The module's functions exist only after \<^verbatim>\<open>init_constants\<close> has returned 1 on the static
  storage, and nothing else writes the tables: \<open>initialised\<close> says that the tables of a
  state are the ones \<^verbatim>\<open>init_constants\<close> leaves.
\<close>

definition initialised :: "py_state \<Rightarrow> bool" where
  "initialised st \<longleftrightarrow>
     escaped_chars_delta_len st =
       escaped_chars_delta_len (snd (init_constants (Some (Some Markup_class)) (static_init st))) \<and>
     escaped_chars_repl st =
       escaped_chars_repl (snd (init_constants (Some (Some Markup_class)) (static_init st)))"

section \<open>\<^verbatim>\<open>escape_unicode\<close>\<close>

text \<open>The two table reads, \<^verbatim>\<open>escaped_chars_delta_len[c]\<close> and \<^verbatim>\<open>escaped_chars_repl[c]\<close>.\<close>

definition delta_len_at :: "py_state \<Rightarrow> Py_UNICODE \<Rightarrow> error + Py_ssize_t" where
  "delta_len_at st c =
     (if unat c < length (escaped_chars_delta_len st)
      then Inr (escaped_chars_delta_len st ! unat c) else Inl TableOutOfBounds)"

definition repl_at :: "py_state \<Rightarrow> Py_UNICODE \<Rightarrow> error + Py_UNICODE list option" where
  "repl_at st c =
     (if unat c < length (escaped_chars_repl st)
      then Inr (escaped_chars_repl st ! unat c) else Inl TableOutOfBounds)"

text \<open>
  The condition of lines 61 and 84, \<^verbatim>\<open>c < ESCAPED_CHARS_TABLE_SIZE && escaped_chars_delta_len[c]\<close>:
  the result is the entry read, or \<open>None\<close> when \<^verbatim>\<open>&&\<close> does not evaluate its right operand
  (the condition is then false, as it is for an entry 0).
\<close>

definition table_cond :: "py_state \<Rightarrow> Py_UNICODE \<Rightarrow> error + Py_ssize_t option" where
  "table_cond st c =
     (if c < of_nat ESCAPED_CHARS_TABLE_SIZE
      then (case delta_len_at st c of Inl e \<Rightarrow> Inl e | Inr d \<Rightarrow> Inr (Some d))
      else Inr None)"

text \<open>
  The first loop (lines 60 to 66). \<open>buf\<close> is \<^verbatim>\<open>in->str\<close>; the loop reads \<^verbatim>\<open>*inp\<close> before it
  compares \<open>inp\<close> with \<open>inp_end\<close>. The result is \<open>(delta, erepl)\<close>.
\<close>

function scan_pass ::
  "py_state \<Rightarrow> Py_UNICODE list \<Rightarrow> nat \<Rightarrow> nat \<Rightarrow> Py_ssize_t \<Rightarrow> Py_ssize_t
     \<Rightarrow> error + (Py_ssize_t \<times> Py_ssize_t)" where
  "scan_pass st buf inp_end inp delta erepl =
     (if length buf \<le> inp then Inl ReadOutOfBounds
      else if buf ! inp \<noteq> 0 \<or> inp < inp_end then
        (case table_cond st (buf ! inp) of
           Inl e \<Rightarrow> Inl e
         | Inr None \<Rightarrow> scan_pass st buf inp_end (inp + 1) delta erepl
         | Inr (Some d) \<Rightarrow>
             if d \<noteq> 0 then
               (case delta_len_at st (buf ! inp) of
                  Inl e \<Rightarrow> Inl e
                | Inr d' \<Rightarrow> scan_pass st buf inp_end (inp + 1) (delta + d') (erepl + 1))
             else scan_pass st buf inp_end (inp + 1) delta erepl)
      else Inr (delta, erepl))"
  by pat_completeness auto
termination
  by (relation "measure (\<lambda>(st, buf, inp_end, inp, delta, erepl). length buf - inp)") auto

text \<open>
  The inner loop of the second pass (lines 83 to 90), from \<open>next_escp\<close>: the result is the
  new \<open>next_escp\<close> and \<open>delta_len\<close>. The assignment in the condition of line 85 changes
  \<open>delta_len\<close> also when the entry is 0.
\<close>

function find_next ::
  "py_state \<Rightarrow> Py_UNICODE list \<Rightarrow> nat \<Rightarrow> nat \<Rightarrow> Py_ssize_t \<Rightarrow> error + (nat \<times> Py_ssize_t)" where
  "find_next st buf inp_end next_escp delta_len =
     (if next_escp < inp_end then
        (if length buf \<le> next_escp then Inl ReadOutOfBounds
         else case table_cond st (buf ! next_escp) of
            Inl e \<Rightarrow> Inl e
          | Inr None \<Rightarrow> find_next st buf inp_end (next_escp + 1) delta_len
          | Inr (Some d) \<Rightarrow>
              if d \<noteq> 0 then Inr (next_escp, d + 1)
              else find_next st buf inp_end (next_escp + 1) d)
      else Inr (next_escp, delta_len))"
  by pat_completeness auto
termination
  by (relation "measure (\<lambda>(st, buf, inp_end, next_escp, delta_len). inp_end - next_escp)") auto

text \<open>
  The outer loop of the second pass (lines 80 to 103). \<open>out\<close> is the buffer \<^verbatim>\<open>out->str\<close>;
  the result is the buffer, \<open>inp\<close> and \<open>outp\<close> when the loop ends.
\<close>

function copy_pass ::
  "py_state \<Rightarrow> Py_UNICODE list \<Rightarrow> nat \<Rightarrow> Py_UNICODE list \<Rightarrow> nat \<Rightarrow> nat \<Rightarrow> Py_ssize_t
     \<Rightarrow> Py_ssize_t \<Rightarrow> error + (Py_UNICODE list \<times> nat \<times> nat)" where
  "copy_pass st buf inp_end out inp outp erepl delta_len =
     (if erepl > 0 then
        (case find_next st buf inp_end inp delta_len of
           Inl e \<Rightarrow> Inl e
         | Inr (next_escp, delta_len1) \<Rightarrow>
            (case (if next_escp > inp
                   then Py_UNICODE_COPY out outp buf inp (int next_escp - int inp)
                   else Inr out) of
               Inl e \<Rightarrow> Inl e
             | Inr out1 \<Rightarrow>
                (let outp1 = (if next_escp > inp then outp + (next_escp - inp) else outp) in
                 if length buf \<le> next_escp then Inl ReadOutOfBounds
                 else case repl_at st (buf ! next_escp) of
                    Inl e \<Rightarrow> Inl e
                  | Inr None \<Rightarrow> Inl NullPointer
                  | Inr (Some repl) \<Rightarrow>
                     (case Py_UNICODE_COPY out1 outp1 repl 0 delta_len1 of
                        Inl e \<Rightarrow> Inl e
                      | Inr out2 \<Rightarrow>
                          copy_pass st buf inp_end out2 (next_escp + 1)
                            (outp1 + nat delta_len1) (erepl - 1) delta_len1))))
      else Inr (out, inp, outp))"
  by pat_completeness auto
termination
  by (relation "measure (\<lambda>(st, buf, inp_end, out, inp, outp, erepl, delta_len). nat erepl)") auto

text \<open>
  \<^verbatim>\<open>escape_unicode(in)\<close>. The argument is the address of a unicode object (\<^verbatim>\<open>Markup\<close> is a
  subtype of unicode); the result is the address returned and the new state. The buffer
  of the new object is written while no other reference to it exists, so the model
  stores it once the copying is done.
\<close>

definition unicode_at :: "py_state \<Rightarrow> addr \<Rightarrow> PyUnicodeObject option" where
  "unicode_at st a =
     (case obj_at st a of
        Some (PyUnicode u) \<Rightarrow> Some u
      | Some (Markup u) \<Rightarrow> Some u
      | _ \<Rightarrow> None)"

definition set_str :: "py_state \<Rightarrow> addr \<Rightarrow> Py_UNICODE list \<Rightarrow> py_state" where
  "set_str st a buf =
     (case heap st ! a of
        Some (rc, PyUnicode u) \<Rightarrow> st\<lparr>heap := (heap st)[a := Some (rc, PyUnicode (u\<lparr>str := buf\<rparr>))]\<rparr>
      | Some (rc, Markup u) \<Rightarrow> st\<lparr>heap := (heap st)[a := Some (rc, Markup (u\<lparr>str := buf\<rparr>))]\<rparr>
      | _ \<Rightarrow> st)"

definition escape_unicode :: "py_state \<Rightarrow> addr \<Rightarrow> error + (addr \<times> py_state)" where
  "escape_unicode st in_obj =
     (case unicode_at st in_obj of
        None \<Rightarrow> Inl NullPointer
      | Some u \<Rightarrow>
         (let inp_end = length_u u in
          case scan_pass st (str u) inp_end 0 0 0 of
            Inl e \<Rightarrow> Inl e
          | Inr (delta, erepl) \<Rightarrow>
              if erepl = 0 then Inr (in_obj, Py_INCREF st in_obj)
              else
                (case PyUnicode_FromUnicode_NULL st (int (length_u u) + delta) of
                   None \<Rightarrow> Inl MemoryError
                 | Some (out_obj, st1) \<Rightarrow>
                    (case unicode_at st1 out_obj of
                       None \<Rightarrow> Inl NullPointer
                     | Some out \<Rightarrow>
                        (case copy_pass st (str u) inp_end (str out) 0 0 erepl 0 of
                           Inl e \<Rightarrow> Inl e
                         | Inr (out1, inp, outp) \<Rightarrow>
                            (case (if inp < inp_end
                                   then Py_UNICODE_COPY out1 outp (str u) inp
                                          (int (length_u u) - (int inp - 0))
                                   else Inr out1) of
                               Inl e \<Rightarrow> Inl e
                             | Inr out2 \<Rightarrow> Inr (out_obj, set_str st1 out_obj out2)))))))"

declare scan_pass.simps [simp del] find_next.simps [simp del] copy_pass.simps [simp del]

section \<open>The host's operations that \<^verbatim>\<open>escape\<close> and \<^verbatim>\<open>soft_unicode\<close> call\<close>

text \<open>The type checks of lines 117 to 119, 132 and 152.\<close>

fun PyInt_CheckExact :: "PyObject \<Rightarrow> bool" where
  "PyInt_CheckExact (PyInt i) = True"
| "PyInt_CheckExact _ = False"

fun PyLong_CheckExact :: "PyObject \<Rightarrow> bool" where
  "PyLong_CheckExact (PyLong i) = True"
| "PyLong_CheckExact _ = False"

fun PyFloat_CheckExact :: "PyObject \<Rightarrow> bool" where
  "PyFloat_CheckExact (PyFloat t) = True"
| "PyFloat_CheckExact _ = False"

fun PyBool_Check :: "PyObject \<Rightarrow> bool" where
  "PyBool_Check (PyBool b) = True"
| "PyBool_Check _ = False"

fun PyUnicode_Check :: "PyObject \<Rightarrow> bool" where
  "PyUnicode_Check (PyUnicode u) = True"
| "PyUnicode_Check (Markup u) = True"
| "PyUnicode_Check _ = False"

text \<open>Decimal digits of an integer, as Python writes them.\<close>

function decimal_nat :: "nat \<Rightarrow> Py_UNICODE list" where
  "decimal_nat n =
     (if n < 10 then [of_nat (48 + n)] else decimal_nat (n div 10) @ [of_nat (48 + n mod 10)])"
  by pat_completeness auto
termination
  by (relation "measure (\<lambda>n. n)") auto

declare decimal_nat.simps [simp del]

definition decimal :: "int \<Rightarrow> Py_UNICODE list" where
  "decimal i = (if i < 0 then of_char (CHR ''-'') # decimal_nat (nat (- i)) else decimal_nat (nat i))"

text \<open>
  Modelled from the spec: the conversion of an arbitrary value to a text sequence, which the
  spec leaves to the host (CPython's \<^verbatim>\<open>PyObject_Unicode\<close>; none of it is in
  \<^verbatim>\<open>_speedups.c\<close>). An integer is written in decimal, a float or a complex number as
  the text it carries, a text sequence is its own text, and any other object converts as
  it says it does, which may fail.
\<close>

fun text_conversion :: "PyObject \<Rightarrow> error + Py_UNICODE list" where
  "text_conversion (PyInt i) = Inr (decimal i)"
| "text_conversion (PyLong i) = Inr (decimal i)"
| "text_conversion (PyFloat t) = Inr t"
| "text_conversion (PyComplex t) = Inr t"
| "text_conversion (PyBool b) = Inr (map of_char (if b then ''True'' else ''False''))"
| "text_conversion Py_None = Inr (map of_char ''None'')"
| "text_conversion (PyUnicode u) = Inr (text_of u)"
| "text_conversion (Markup u) = Inr (text_of u)"
| "text_conversion (PyOther h t) = t"

text \<open>A new object with reference count 1, when the memory for its buffer is there.\<close>

definition alloc_object :: "py_state \<Rightarrow> PyObject \<Rightarrow> error + (addr \<times> py_state)" where
  "alloc_object st ob =
     (if mem_avail st < cells_of ob then Inl MemoryError
      else Inr (length (heap st),
        st\<lparr>heap := heap st @ [Some (1, ob)], mem_avail := mem_avail st - cells_of ob\<rparr>))"

text \<open>
  \<^verbatim>\<open>PyObject_Unicode(v)\<close>: an exact unicode object is returned as it is, with one more
  reference; anything else is converted into a new unicode object.
\<close>

definition PyObject_Unicode :: "py_state \<Rightarrow> addr \<Rightarrow> error + (addr \<times> py_state)" where
  "PyObject_Unicode st v =
     (case obj_at st v of
        None \<Rightarrow> Inl NullPointer
      | Some (PyUnicode u) \<Rightarrow> Inr (v, Py_INCREF st v)
      | Some ob \<Rightarrow>
          (case text_conversion ob of
             Inl e \<Rightarrow> Inl e
           | Inr t \<Rightarrow> alloc_object st (PyUnicode (unicode_of_text t))))"

text \<open>
  Modelled from the spec: the class \<^verbatim>\<open>jinja2.utils.Markup\<close>, Python code of this repository
  that is not among the sources here. It is the safe marker of the spec, a subtype of the
  text type: calling it on a value gives a new \<^verbatim>\<open>Markup\<close> object that carries the
  value's text unchanged (the text conversion of a value that is not text), and calling it
  on nothing gives the empty one. Its \<^verbatim>\<open>__html__\<close> method is the capability "I know how
  to render myself as safe HTML" and returns the object itself.

  \<open>py_call st f arg\<close> is \<^verbatim>\<open>PyObject_CallFunctionObjArgs(f, arg, NULL)\<close>, and
  \<^verbatim>\<open>PyObject_CallObject(f, NULL)\<close> when \<open>arg\<close> is \<open>None\<close>. The \<^verbatim>\<open>__html__\<close> method of
  another object returns a new object, or raises, as the object says.
\<close>

fun py_call :: "py_state \<Rightarrow> py_callable \<Rightarrow> addr option \<Rightarrow> error + (addr \<times> py_state)" where
  "py_call st Markup_class None = alloc_object st (Markup (unicode_of_text []))"
| "py_call st Markup_class (Some a) =
     (case obj_at st a of
        None \<Rightarrow> Inl NullPointer
      | Some ob \<Rightarrow>
          (case text_conversion ob of
             Inl e \<Rightarrow> Inl e
           | Inr t \<Rightarrow> alloc_object st (Markup (unicode_of_text t))))"
| "py_call st (Bound_html a) None =
     (case obj_at st a of
        Some (Markup u) \<Rightarrow> Inr (a, Py_INCREF st a)
      | Some (PyOther (Some (Inr ob)) t) \<Rightarrow> alloc_object st ob
      | Some (PyOther (Some (Inl e)) t) \<Rightarrow> Inl e
      | _ \<Rightarrow> Inl PyException)"
| "py_call st (Bound_html a) (Some b) = Inl PyException"

definition PyObject_CallFunctionObjArgs ::
  "py_state \<Rightarrow> py_callable option \<Rightarrow> addr option \<Rightarrow> error + (addr \<times> py_state)" where
  "PyObject_CallFunctionObjArgs st callable arg =
     (case callable of None \<Rightarrow> Inl NullPointer | Some f \<Rightarrow> py_call st f arg)"

definition PyObject_CallObject :: "py_state \<Rightarrow> py_callable \<Rightarrow> error + (addr \<times> py_state)" where
  "PyObject_CallObject st f = py_call st f None"

text \<open>
  \<^verbatim>\<open>PyObject_GetAttrString(text, "__html__")\<close>: \<open>None\<close> (for \<^verbatim>\<open>NULL\<close>, with the
  \<^verbatim>\<open>AttributeError\<close> that line 131 clears) when the object has no such attribute.
\<close>

definition PyObject_GetAttrString_html :: "py_state \<Rightarrow> addr \<Rightarrow> py_callable option" where
  "PyObject_GetAttrString_html st a =
     (case obj_at st a of
        Some (Markup u) \<Rightarrow> Some (Bound_html a)
      | Some (PyOther (Some r) t) \<Rightarrow> Some (Bound_html a)
      | _ \<Rightarrow> None)"

section \<open>\<^verbatim>\<open>escape\<close> and \<^verbatim>\<open>soft_unicode\<close>\<close>

text \<open>
  Lines 143 to 145, for the pointer \<open>s\<close> that \<^verbatim>\<open>escape_unicode\<close> returned and the state
  then. When the pointer is \<^verbatim>\<open>NULL\<close> (\<^verbatim>\<open>escape_unicode\<close> could not allocate), line 143
  calls \<^verbatim>\<open>markup\<close> with no argument and line 144 dereferences \<^verbatim>\<open>NULL\<close>.
\<close>

definition wrap_markup :: "error + (addr \<times> py_state) \<Rightarrow> error + (addr \<times> py_state)" where
  "wrap_markup r =
     (case r of
        Inl e \<Rightarrow> Inl (if e = MemoryError then NullPointer else e)
      | Inr (s, st) \<Rightarrow>
          (case PyObject_CallFunctionObjArgs st (markup st) (Some s) of
             Inl e \<Rightarrow> Inl e
           | Inr (rv, st1) \<Rightarrow> Inr (rv, Py_DECREF st1 s)))"

text \<open>
  \<^verbatim>\<open>escape(self, text)\<close>. The bound method \<open>html\<close> is a temporary that line 126 releases;
  it is not an object of the modelled heap.
\<close>

definition escape :: "py_state \<Rightarrow> addr \<Rightarrow> error + (addr \<times> py_state)" where
  "escape st text_obj =
     (case obj_at st text_obj of
        None \<Rightarrow> Inl NullPointer
      | Some ob \<Rightarrow>
          if PyInt_CheckExact ob \<or> PyLong_CheckExact ob \<or> PyFloat_CheckExact ob \<or>
             PyBool_Check ob \<or> ob = Py_None
          then PyObject_CallFunctionObjArgs st (markup st) (Some text_obj)
          else
            (case PyObject_GetAttrString_html st text_obj of
               Some html \<Rightarrow> PyObject_CallObject st html
             | None \<Rightarrow>
                 if \<not> PyUnicode_Check ob then
                   (case PyObject_Unicode st text_obj of
                      Inl e \<Rightarrow> Inl e
                    | Inr (unicode, st1) \<Rightarrow>
                        wrap_markup
                          (case escape_unicode st1 unicode of
                             Inl e \<Rightarrow> Inl e
                           | Inr (s, st2) \<Rightarrow> Inr (s, Py_DECREF st2 unicode)))
                 else wrap_markup (escape_unicode st text_obj)))"

text \<open>
  \<^verbatim>\<open>soft_unicode(self, s)\<close>. The fourth function of the file, \<^verbatim>\<open>tb_set_next\<close>, links
  traceback objects; the specification leaves it out, and it is not modelled.
\<close>

definition soft_unicode :: "py_state \<Rightarrow> addr \<Rightarrow> error + (addr \<times> py_state)" where
  "soft_unicode st s =
     (case obj_at st s of
        None \<Rightarrow> Inl NullPointer
      | Some ob \<Rightarrow>
          if \<not> PyUnicode_Check ob then PyObject_Unicode st s
          else Inr (s, Py_INCREF st s))"

section \<open>The specification's vocabulary\<close>

text \<open>
  The definitions of this section follow the words of the specification, not the code:
  the five characters, the image of a codepoint, its delta, the escaped text as the
  concatenation of the images, and the two sums of the scan pass.
\<close>

definition escapable :: "Py_UNICODE \<Rightarrow> bool" where
  "escapable c \<longleftrightarrow> c = chr_quot \<or> c = chr_apos \<or> c = chr_amp \<or> c = chr_lt \<or> c = chr_gt"

definition replacement_image :: "Py_UNICODE \<Rightarrow> Py_UNICODE list" where
  "replacement_image c =
     (if c = chr_quot then map of_char ''&#34;''
      else if c = chr_apos then map of_char ''&#39;''
      else if c = chr_amp then map of_char ''&amp;''
      else if c = chr_lt then map of_char ''&lt;''
      else if c = chr_gt then map of_char ''&gt;''
      else [c])"

definition delta_of :: "Py_UNICODE \<Rightarrow> int" where
  "delta_of c =
     (if c = chr_quot \<or> c = chr_apos \<or> c = chr_amp then 4
      else if c = chr_lt \<or> c = chr_gt then 3 else 0)"

definition escape_text_spec :: "Py_UNICODE list \<Rightarrow> Py_UNICODE list" where
  "escape_text_spec xs = concat (map replacement_image xs)"

definition total_delta :: "Py_UNICODE list \<Rightarrow> int" where
  "total_delta xs = sum_list (map delta_of xs)"

definition match_count :: "Py_UNICODE list \<Rightarrow> nat" where
  "match_count xs = length (filter escapable xs)"

text \<open>
  A text has no unescaped instance of the five characters when it has no \<^verbatim>\<open>"\<close>, \<^verbatim>\<open>'\<close>,
  \<^verbatim>\<open><\<close> or \<^verbatim>\<open>>\<close> at all and each of its \<^verbatim>\<open>&\<close> is the first character of one of the
  five replacement sequences.
\<close>

definition starts_replacement :: "Py_UNICODE list \<Rightarrow> nat \<Rightarrow> bool" where
  "starts_replacement out i \<longleftrightarrow>
     (\<exists>c\<in>{chr_quot, chr_apos, chr_amp, chr_lt, chr_gt}.
        take (length (replacement_image c)) (drop i out) = replacement_image c)"

definition no_unescaped :: "Py_UNICODE list \<Rightarrow> bool" where
  "no_unescaped out \<longleftrightarrow>
     chr_quot \<notin> set out \<and> chr_apos \<notin> set out \<and> chr_lt \<notin> set out \<and> chr_gt \<notin> set out \<and>
     (\<forall>i\<in>{..<length out}. out ! i = chr_amp \<longrightarrow> starts_replacement out i)"

text \<open>
  Allocation failure is outside the contract of the specification. The memory for the
  output of \<^verbatim>\<open>escape_unicode\<close> is there when no buffer is needed, or when the allocator
  still has the \<open>length + delta\<close> cells and the terminator's.
\<close>

definition output_fits :: "py_state \<Rightarrow> PyUnicodeObject \<Rightarrow> bool" where
  "output_fits st u \<longleftrightarrow>
     match_count (text_of u) = 0 \<or>
     int (length_u u) + total_delta (text_of u) < int (mem_avail st)"

text \<open>Writing \<open>a\<close> over the cells of \<open>out\<close> from offset \<open>p\<close>: what one copy does to a buffer.\<close>

definition overwrite :: "'a list \<Rightarrow> nat \<Rightarrow> 'a list \<Rightarrow> 'a list" where
  "overwrite out p a = take p out @ a @ drop (p + length a) out"

text \<open>
  States for the examples: the module imported into an interpreter with \<open>mem\<close> free cells
  whose heap holds the objects \<open>obs\<close>, each referenced once, and whose fresh memory is
  filled with U+FFFD.
\<close>

definition module_imported :: "nat \<Rightarrow> PyObject list \<Rightarrow> py_state" where
  "module_imported mem obs =
     snd (init_constants (Some (Some Markup_class))
       (static_init \<lparr>heap = map (\<lambda>ob. Some (1, ob)) obs, mem_avail = mem, uninit = (\<lambda>i. 65533),
          markup = None, escaped_chars_delta_len = [], escaped_chars_repl = []\<rparr>))"

definition utext :: "string \<Rightarrow> PyUnicodeObject" where
  "utext x = unicode_of_text (map of_char x)"

section \<open>The tables and the two passes\<close>

subsection \<open>The tables that \<^verbatim>\<open>init_constants\<close> leaves\<close>

lemmas chr_defs = chr_quot_def chr_apos_def chr_amp_def chr_lt_def chr_gt_def

lemma tables_length:
  "initialised st \<Longrightarrow> length (escaped_chars_delta_len st) = 63 \<and> length (escaped_chars_repl st) = 63"
  by (simp add: initialised_def init_constants_def static_init_def ESCAPED_CHARS_TABLE_SIZE_def)

lemma delta_table_nth:
  "initialised st \<Longrightarrow> i < 63 \<Longrightarrow>
   escaped_chars_delta_len st ! i =
     (if i = 34 \<or> i = 39 \<or> i = 38 then 4 else if i = 60 \<or> i = 62 then 3 else 0)"
  by (simp add: initialised_def init_constants_def static_init_def ESCAPED_CHARS_TABLE_SIZE_def
      chr_defs nth_list_update)

lemma repl_table_nth:
  "initialised st \<Longrightarrow> i < 63 \<Longrightarrow>
   escaped_chars_repl st ! i =
     (if i = 34 then Some (UNICHR ''&#34;'') else if i = 39 then Some (UNICHR ''&#39;'')
      else if i = 38 then Some (UNICHR ''&amp;'') else if i = 60 then Some (UNICHR ''&lt;'')
      else if i = 62 then Some (UNICHR ''&gt;'') else None)"
  by (simp add: initialised_def init_constants_def static_init_def ESCAPED_CHARS_TABLE_SIZE_def
      chr_defs nth_list_update)

lemma word_eq_unat: "(c::Py_UNICODE) = d \<longleftrightarrow> unat c = unat d"
  by (simp add: word_unat_eq_iff)

lemma escapable_unat:
  "escapable c \<longleftrightarrow> unat c = 34 \<or> unat c = 39 \<or> unat c = 38 \<or> unat c = 60 \<or> unat c = 62"
  by (simp add: escapable_def chr_defs word_eq_unat)

lemma delta_of_unat:
  "delta_of c = (if unat c = 34 \<or> unat c = 39 \<or> unat c = 38 then 4
                 else if unat c = 60 \<or> unat c = 62 then 3 else 0)"
  by (simp add: delta_of_def chr_defs word_eq_unat)

lemma below_table_size: "c < of_nat ESCAPED_CHARS_TABLE_SIZE \<longleftrightarrow> unat (c::Py_UNICODE) < 63"
  by (simp add: ESCAPED_CHARS_TABLE_SIZE_def word_less_nat_alt)

lemma escapable_below: "escapable c \<Longrightarrow> unat c < 63"
  by (auto simp: escapable_unat)

lemma delta_of_escapable: "delta_of c \<noteq> 0 \<longleftrightarrow> escapable c"
  by (simp add: delta_of_unat escapable_unat)

lemma delta_len_at_init:
  "initialised st \<Longrightarrow> unat c < 63 \<Longrightarrow> delta_len_at st c = Inr (delta_of c)"
  by (simp add: delta_len_at_def tables_length delta_table_nth delta_of_unat)

lemma table_cond_init:
  "initialised st \<Longrightarrow> table_cond st c = Inr (if unat c < 63 then Some (delta_of c) else None)"
  by (simp add: table_cond_def below_table_size delta_len_at_init)

lemma replacement_image_unat:
  "replacement_image c =
     (if unat c = 34 then map of_char ''&#34;''
      else if unat c = 39 then map of_char ''&#39;''
      else if unat c = 38 then map of_char ''&amp;''
      else if unat c = 60 then map of_char ''&lt;''
      else if unat c = 62 then map of_char ''&gt;''
      else [c])"
  by (simp add: replacement_image_def chr_defs word_eq_unat)

lemma repl_at_init:
  "initialised st \<Longrightarrow> escapable c \<Longrightarrow> repl_at st c = Inr (Some (replacement_image c @ [0]))"
  by (auto simp: repl_at_def tables_length repl_table_nth escapable_unat replacement_image_unat UNICHR_def)

lemma length_replacement_image: "int (length (replacement_image c)) = delta_of c + 1"
  by (simp add: replacement_image_unat delta_of_unat)

lemma replacement_image_clean: "\<not> escapable c \<Longrightarrow> replacement_image c = [c]"
  by (simp add: replacement_image_unat escapable_unat)

subsection \<open>The scan pass\<close>

lemma scan_pass_from:
  assumes "initialised st" and "inp \<le> length xs"
  shows "scan_pass st (xs @ [0]) (length xs) inp d e =
           Inr (d + total_delta (drop inp xs), e + int (match_count (drop inp xs)))"
  using assms(2)
proof (induction "length xs - inp" arbitrary: inp d e)
  case 0
  then have "inp = length xs" by simp
  then show ?case
    by (subst scan_pass.simps) (simp add: total_delta_def match_count_def)
next
  case (Suc k)
  then have lt: "inp < length xs" by simp
  then have dr: "drop inp xs = xs ! inp # drop (Suc inp) xs"
    by (simp add: Cons_nth_drop_Suc)
  have nth: "(xs @ [0]) ! inp = xs ! inp"
    using lt by (simp add: nth_append)
  have ih: "\<And>d e. scan_pass st (xs @ [0]) (length xs) (Suc inp) d e =
      Inr (d + total_delta (drop (Suc inp) xs), e + int (match_count (drop (Suc inp) xs)))"
    using Suc.hyps(1) [of "Suc inp"] Suc.hyps(2) lt by simp
  show ?case
    using lt assms(1)
    by (subst scan_pass.simps)
       (simp add: nth table_cond_init delta_len_at_init ih dr total_delta_def match_count_def
          delta_of_escapable [symmetric] delta_of_unat)
qed

subsection \<open>The copy pass\<close>

lemma find_next_hit:
  assumes "initialised st"
    and "drop inp xs = ys @ c # zs" and "\<forall>y\<in>set ys. \<not> escapable y" and "escapable c"
  shows "find_next st (xs @ [0]) (length xs) inp dl = Inr (inp + length ys, delta_of c + 1)"
  using assms(2,3)
proof (induction ys arbitrary: inp dl)
  case Nil
  then have lt: "inp < length xs"
    by (metis drop_all list.simps(3) not_le_imp_less self_append_conv2)
  then have "xs ! inp = c"
    using Nil.prems(1) by (metis append_Nil hd_drop_conv_nth list.sel(1))
  then show ?case
    using lt assms(1,4)
    by (subst find_next.simps)
       (simp add: nth_append table_cond_init escapable_below delta_of_escapable)
next
  case (Cons y ys)
  then have lt: "inp < length xs"
    by (metis append_Cons drop_all list.simps(3) not_le_imp_less)
  then have y: "xs ! inp = y"
    using Cons.prems(1) by (metis append_Cons hd_drop_conv_nth list.sel(1))
  have "drop (Suc inp) xs = ys @ c # zs"
    using Cons.prems(1) by (metis append_Cons drop_Suc list.sel(3) tl_drop)
  then have ih: "\<And>dl. find_next st (xs @ [0]) (length xs) (Suc inp) dl =
      Inr (Suc inp + length ys, delta_of c + 1)"
    using Cons.IH Cons.prems(2) by simp
  have "\<not> escapable y" using Cons.prems(2) by simp
  then have "delta_of y = 0" using delta_of_escapable by blast
  then show ?case
    using lt assms(1)
    by (subst find_next.simps) (simp add: nth_append y table_cond_init ih)
qed

lemma overwrite_Nil [simp]: "overwrite out p [] = out"
  by (simp add: overwrite_def)

lemma length_overwrite [simp]: "p + length a \<le> length out \<Longrightarrow> length (overwrite out p a) = length out"
  by (simp add: overwrite_def)

lemma overwrite_overwrite:
  assumes "p + length a + length b \<le> length out"
  shows "overwrite (overwrite out p a) (p + length a) b = overwrite out p (a @ b)"
proof -
  have p: "p \<le> length out" using assms by simp
  have "take (p + length a) (take p out @ a @ drop (p + length a) out) = take p out @ a"
    using p by (simp add: min_absorb2)
  moreover have "drop (p + length a + length b) (take p out @ a @ drop (p + length a) out)
      = drop (p + length a + length b) out"
    using p by (simp add: min_absorb2 add.commute)
  ultimately show ?thesis
    by (simp add: overwrite_def add.assoc)
qed

lemma Py_UNICODE_COPY_overwrite:
  "sp + length a \<le> length source \<Longrightarrow> take (length a) (drop sp source) = a \<Longrightarrow>
   tp + length a \<le> length target \<Longrightarrow>
   Py_UNICODE_COPY target tp source sp (int (length a)) = Inr (overwrite target tp a)"
  by (simp add: Py_UNICODE_COPY_def overwrite_def)

lemma escape_text_spec_clean:
  "\<forall>y\<in>set ys. \<not> escapable y \<Longrightarrow> escape_text_spec ys = ys"
  by (induction ys) (simp_all add: escape_text_spec_def replacement_image_clean)

lemma escape_text_spec_append:
  "escape_text_spec (xs @ ys) = escape_text_spec xs @ escape_text_spec ys"
  by (simp add: escape_text_spec_def)

lemma escape_text_spec_Cons:
  "escape_text_spec (x # xs) = replacement_image x @ escape_text_spec xs"
  by (simp add: escape_text_spec_def)

lemma copy_pass_run:
  assumes "initialised st"
  shows "match_count (drop inp xs) = k \<Longrightarrow>
         outp + length (escape_text_spec (drop inp xs)) \<le> length out \<Longrightarrow>
         \<exists>pre suf. drop inp xs = pre @ suf \<and> (\<forall>y\<in>set suf. \<not> escapable y) \<and>
           copy_pass st (xs @ [0]) (length xs) out inp outp (int k) dl =
             Inr (overwrite out outp (escape_text_spec pre), inp + length pre,
                  outp + length (escape_text_spec pre))"
proof (induction k arbitrary: inp outp out dl)
  case 0
  then have "\<forall>y\<in>set (drop inp xs). \<not> escapable y"
    by (simp add: match_count_def filter_empty_conv)
  moreover have "copy_pass st (xs @ [0]) (length xs) out inp outp (int 0) dl = Inr (out, inp, outp)"
    by (subst copy_pass.simps) simp
  ultimately have "drop inp xs = [] @ drop inp xs \<and> (\<forall>y\<in>set (drop inp xs). \<not> escapable y) \<and>
      copy_pass st (xs @ [0]) (length xs) out inp outp (int 0) dl =
        Inr (overwrite out outp (escape_text_spec []), inp + length ([]::Py_UNICODE list),
             outp + length (escape_text_spec []))"
    by (simp add: escape_text_spec_def)
  then show ?case by blast
next
  case (Suc k)
  then have "\<exists>y\<in>set (drop inp xs). escapable y"
    by (metis filter_empty_conv length_0_conv match_count_def nat.simps(3))
  from split_list_first_prop [OF this]
  obtain ys c zs where split: "drop inp xs = ys @ c # zs"
    and c: "escapable c" and ys: "\<forall>y\<in>set ys. \<not> escapable y"
    by blast
  let ?img = "replacement_image c"
  have len: "inp + length ys < length xs"
  proof -
    have "length (drop inp xs) = length ys + Suc (length zs)"
      by (simp add: split)
    then show ?thesis by simp
  qed
  have zs: "drop (Suc (inp + length ys)) xs = zs"
    by (metis add.commute append_eq_conv_conj drop_Suc drop_drop list.sel(3) split tl_drop)
  have k: "match_count zs = k"
    using Suc.prems(1) c ys by (simp add: split match_count_def)
  have spec: "escape_text_spec (drop inp xs) = ys @ ?img @ escape_text_spec zs"
    by (simp add: split escape_text_spec_append escape_text_spec_Cons escape_text_spec_clean ys)
  have room: "outp + length ys + length ?img + length (escape_text_spec zs) \<le> length out"
    using Suc.prems(2) by (simp add: spec)
  have dl1: "delta_of c + 1 = int (length ?img)"
    by (simp add: length_replacement_image)
  have found: "find_next st (xs @ [0]) (length xs) inp dl = Inr (inp + length ys, int (length ?img))"
    using find_next_hit [OF assms split ys c] by (simp add: dl1)
  have src: "take (length ys) (drop inp (xs @ [0])) = ys"
    using len by (simp add: split)
  have copy1: "(if inp + length ys > inp
        then Py_UNICODE_COPY out outp (xs @ [0]) inp (int (inp + length ys) - int inp)
        else Inr out) = Inr (overwrite out outp ys)"
  proof (cases "ys = []")
    case True
    then show ?thesis by simp
  next
    case False
    have "Py_UNICODE_COPY out outp (xs @ [0]) inp (int (length ys)) = Inr (overwrite out outp ys)"
      using len room by (intro Py_UNICODE_COPY_overwrite src) simp_all
    then show ?thesis using False by simp
  qed
  have outp1: "(if inp + length ys > inp then outp + (inp + length ys - inp) else outp) = outp + length ys"
    by simp
  have cur: "(xs @ [0]) ! (inp + length ys) = c"
  proof -
    have "xs ! (inp + length ys) = drop inp xs ! length ys"
      using len by simp
    then show ?thesis using len by (simp add: nth_append split)
  qed
  have repl: "repl_at st c = Inr (Some (?img @ [0]))"
    by (rule repl_at_init [OF assms c])
  have copy2: "Py_UNICODE_COPY (overwrite out outp ys) (outp + length ys) (?img @ [0]) 0 (int (length ?img))
      = Inr (overwrite out outp (ys @ ?img))"
  proof -
    have "Py_UNICODE_COPY (overwrite out outp ys) (outp + length ys) (?img @ [0]) 0 (int (length ?img))
      = Inr (overwrite (overwrite out outp ys) (outp + length ys) ?img)"
      using room by (intro Py_UNICODE_COPY_overwrite) simp_all
    then show ?thesis using room by (simp add: overwrite_overwrite)
  qed
  have room': "outp + length ys + length ?img + length (escape_text_spec (drop (Suc (inp + length ys)) xs))
      \<le> length (overwrite out outp (ys @ ?img))"
    using room by (simp add: zs)
  obtain pre suf where ih1: "zs = pre @ suf" and ih2: "\<forall>y\<in>set suf. \<not> escapable y"
    and ih3: "copy_pass st (xs @ [0]) (length xs) (overwrite out outp (ys @ ?img))
        (Suc (inp + length ys)) (outp + length ys + length ?img) (int k) (int (length ?img)) =
      Inr (overwrite (overwrite out outp (ys @ ?img)) (outp + length ys + length ?img) (escape_text_spec pre),
           Suc (inp + length ys) + length pre,
           outp + length ys + length ?img + length (escape_text_spec pre))"
    using Suc.IH [of "Suc (inp + length ys)" "outp + length ys + length ?img"
        "overwrite out outp (ys @ ?img)" "int (length ?img)"] k room' zs
    by auto
  have room2: "outp + length (ys @ ?img) + length (escape_text_spec pre) \<le> length out"
    using room by (simp add: ih1 escape_text_spec_append)
  have final: "overwrite (overwrite out outp (ys @ ?img)) (outp + length ys + length ?img) (escape_text_spec pre)
      = overwrite out outp (escape_text_spec (ys @ c # pre))"
    using overwrite_overwrite [OF room2]
    by (simp add: escape_text_spec_append escape_text_spec_Cons escape_text_spec_clean ys add.assoc)
  have step: "copy_pass st (xs @ [0]) (length xs) out inp outp (int (Suc k)) dl =
      copy_pass st (xs @ [0]) (length xs) (overwrite out outp (ys @ ?img))
        (Suc (inp + length ys)) (outp + length ys + length ?img) (int k) (int (length ?img))"
  proof -
    have pos: "0 < int (Suc k)" and dec: "int (Suc k) - 1 = int k"
      and natlen: "nat (int (length ?img)) = length ?img"
      and suc: "inp + length ys + 1 = Suc (inp + length ys)"
      and inb: "\<not> length (xs @ [0]) \<le> inp + length ys"
      using len by simp_all
    show ?thesis
      by (subst copy_pass.simps)
         (simp only: pos if_True found sum.case prod.case copy1 Let_def outp1 inb if_False
            cur repl option.case copy2 natlen dec suc)
  qed
  have "drop inp xs = (ys @ c # pre) @ suf \<and> (\<forall>y\<in>set suf. \<not> escapable y) \<and>
      copy_pass st (xs @ [0]) (length xs) out inp outp (int (Suc k)) dl =
        Inr (overwrite out outp (escape_text_spec (ys @ c # pre)), inp + length (ys @ c # pre),
             outp + length (escape_text_spec (ys @ c # pre)))"
    using ih2
    by (simp add: step ih3 final split ih1 escape_text_spec_append escape_text_spec_Cons
          escape_text_spec_clean ys del: of_nat_Suc)
  then show ?case by blast
qed

subsection \<open>The result of \<^verbatim>\<open>escape_unicode\<close>\<close>

lemma length_escape_text_spec:
  "int (length (escape_text_spec xs)) = int (length xs) + total_delta xs"
  by (induction xs)
     (simp_all add: escape_text_spec_def total_delta_def length_replacement_image)

lemma wf_str: "PyUnicode_wf u \<Longrightarrow> str u = text_of u @ [0]"
  unfolding PyUnicode_wf_def text_of_def
  by (metis Suc_eq_plus1 lessI take_Suc_conv_app_nth take_all order_refl)

lemma wf_length: "PyUnicode_wf u \<Longrightarrow> length (text_of u) = length_u u"
  by (simp add: PyUnicode_wf_def text_of_def)

lemma overwrite_all: "length a = n \<Longrightarrow> length junk = n \<Longrightarrow> overwrite (junk @ rest) 0 a = a @ rest"
  by (simp add: overwrite_def)

lemma copy_phase:
  assumes init: "initialised st" and k: "match_count xs = k"
    and out: "length junk = length (escape_text_spec xs)"
  shows "(case copy_pass st (xs @ [0]) (length xs) (junk @ [0]) 0 0 (int k) 0 of
            Inl e \<Rightarrow> Inl e
          | Inr (out1, inp, outp) \<Rightarrow>
              (case (if inp < length xs
                     then Py_UNICODE_COPY out1 outp (xs @ [0]) inp (int (length xs) - (int inp - 0))
                     else Inr out1) of
                 Inl e \<Rightarrow> Inl e
               | Inr out2 \<Rightarrow> Inr (f out2)))
         = Inr (f (escape_text_spec xs @ [0]))"
proof -
  let ?out = "junk @ [0::Py_UNICODE]"
  have room: "0 + length (escape_text_spec (drop 0 xs)) \<le> length ?out"
    using out by simp
  from copy_pass_run [OF init, of 0 xs k 0 ?out 0] k room
  obtain pre suf where xs: "xs = pre @ suf" and suf: "\<forall>y\<in>set suf. \<not> escapable y"
    and run: "copy_pass st (xs @ [0]) (length xs) ?out 0 0 (int k) 0 =
      Inr (overwrite ?out 0 (escape_text_spec pre), length pre, length (escape_text_spec pre))"
    by auto
  have spec: "escape_text_spec xs = escape_text_spec pre @ suf"
    by (simp add: xs escape_text_spec_append escape_text_spec_clean suf)
  have room2: "0 + length (escape_text_spec pre) + length suf \<le> length ?out"
    using out by (simp add: spec)
  have tail: "(if length pre < length xs
        then Py_UNICODE_COPY (overwrite ?out 0 (escape_text_spec pre)) (length (escape_text_spec pre))
               (xs @ [0]) (length pre) (int (length xs) - (int (length pre) - 0))
        else Inr (overwrite ?out 0 (escape_text_spec pre)))
      = Inr (overwrite ?out 0 (escape_text_spec xs))"
  proof (cases "suf = []")
    case True
    then show ?thesis by (simp add: xs spec)
  next
    case False
    have n: "int (length xs) - (int (length pre) - 0) = int (length suf)"
      by (simp add: xs)
    have "Py_UNICODE_COPY (overwrite ?out 0 (escape_text_spec pre)) (length (escape_text_spec pre))
               (xs @ [0]) (length pre) (int (length suf))
        = Inr (overwrite (overwrite ?out 0 (escape_text_spec pre)) (0 + length (escape_text_spec pre)) suf)"
      using room2 by (intro Py_UNICODE_COPY_overwrite [THEN trans]) (simp_all add: xs)
    then show ?thesis
      using False overwrite_overwrite [OF room2] by (simp add: n spec) (simp add: xs)
  qed
  have "overwrite ?out 0 (escape_text_spec xs) = escape_text_spec xs @ [0]"
    using out by (intro overwrite_all) simp_all
  then show ?thesis
    by (simp only: run sum.case prod.case tail)
qed

lemma escape_unicode_result:
  assumes init: "initialised st" and u: "unicode_at st a = Some u" and wf: "PyUnicode_wf u"
  shows "escape_unicode st a =
     (if match_count (text_of u) = 0 then Inr (a, Py_INCREF st a)
      else if mem_avail st < length (escape_text_spec (text_of u)) + 1 then Inl MemoryError
      else Inr (length (heap st),
        st\<lparr>heap := heap st @
               [Some (1, PyUnicode (unicode_of_text (escape_text_spec (text_of u))))],
           mem_avail := mem_avail st - (length (escape_text_spec (text_of u)) + 1)\<rparr>))"
proof -
  let ?xs = "text_of u"
  let ?N = "length (escape_text_spec ?xs)"
  have str: "str u = ?xs @ [0]" and len: "length_u u = length ?xs"
    using wf by (simp_all add: wf_str wf_length)
  have scan: "scan_pass st (?xs @ [0]) (length ?xs) 0 0 0 =
      Inr (total_delta ?xs, int (match_count ?xs))"
    using scan_pass_from [OF init, of 0 ?xs 0 0] by simp
  have sz: "int (length ?xs) + total_delta ?xs = int ?N"
    by (simp add: length_escape_text_spec)
  show ?thesis
  proof (cases "match_count ?xs = 0")
    case True
    then show ?thesis
      by (simp add: escape_unicode_def u str len scan del: of_nat_eq_0_iff)
  next
    case False
    show ?thesis
    proof (cases "mem_avail st < ?N + 1")
      case True
      then show ?thesis
        using False
        by (simp add: escape_unicode_def u str len scan sz PyUnicode_FromUnicode_NULL_def)
    next
      case enough: False
      let ?st1 = "st\<lparr>heap := heap st @
               [Some (1, PyUnicode \<lparr>length_u = ?N, str = map (uninit st) [0..<?N] @ [0]\<rparr>)],
           mem_avail := mem_avail st - (?N + 1)\<rparr>"
      have alloc: "PyUnicode_FromUnicode_NULL st (int ?N) = Some (length (heap st), ?st1)"
        using enough by (simp add: PyUnicode_FromUnicode_NULL_def)
      have out: "unicode_at ?st1 (length (heap st)) =
          Some \<lparr>length_u = ?N, str = map (uninit st) [0..<?N] @ [0]\<rparr>"
        by (simp add: unicode_at_def obj_at_def)
      have copy: "(case copy_pass st (?xs @ [0]) (length ?xs) (map (uninit st) [0..<?N] @ [0]) 0 0
                    (int (match_count ?xs)) 0 of
            Inl e \<Rightarrow> Inl e
          | Inr (out1, inp, outp) \<Rightarrow>
              (case (if inp < length ?xs
                     then Py_UNICODE_COPY out1 outp (?xs @ [0]) inp (int (length ?xs) - (int inp - 0))
                     else Inr out1) of
                 Inl e \<Rightarrow> Inl e
               | Inr out2 \<Rightarrow> Inr (length (heap st), set_str ?st1 (length (heap st)) out2)))
         = Inr (length (heap st), set_str ?st1 (length (heap st)) (escape_text_spec ?xs @ [0]))"
        by (rule copy_phase [OF init refl]) simp
      have store: "set_str ?st1 (length (heap st)) (escape_text_spec ?xs @ [0]) =
          st\<lparr>heap := heap st @
               [Some (1, PyUnicode (unicode_of_text (escape_text_spec ?xs)))],
           mem_avail := mem_avail st - (?N + 1)\<rparr>"
        by (simp add: set_str_def unicode_of_text_def)
      have nz: "int (match_count ?xs) \<noteq> 0" using False by simp
      show ?thesis
        unfolding escape_unicode_def
        by (simp only: u option.case Let_def str len scan sum.case prod.case nz if_False sz alloc
              PyUnicodeObject.select_convs
              out copy store False enough)
    qed
  qed
qed

section \<open>Lemmas on the heap and the example states\<close>

lemma obj_at_INCREF [simp]: "obj_at (Py_INCREF st a) b = obj_at st b"
  by (cases "heap st ! a") (auto simp: obj_at_def Py_INCREF_def nth_list_update)

lemma refcnt_at_INCREF: "refcnt_at (Py_INCREF st a) a = map_option Suc (refcnt_at st a)"
  by (cases "heap st ! a") (auto simp: refcnt_at_def Py_INCREF_def)

lemma unicode_at_INCREF [simp]: "unicode_at (Py_INCREF st a) b = unicode_at st b"
  by (simp add: unicode_at_def)

lemma wf_unicode_of_text [simp]: "PyUnicode_wf (unicode_of_text xs)"
  by (simp add: PyUnicode_wf_def unicode_of_text_def)

lemma text_of_unicode_of_text [simp]: "text_of (unicode_of_text xs) = xs"
  by (simp add: text_of_def unicode_of_text_def)

lemma match_count_0: "match_count xs = 0 \<longleftrightarrow> (\<forall>y\<in>set xs. \<not> escapable y)"
  by (simp add: match_count_def filter_empty_conv)

lemma escape_text_spec_fixed: "match_count xs = 0 \<Longrightarrow> escape_text_spec xs = xs"
  by (simp add: match_count_0 escape_text_spec_clean)

lemma unicode_at_new [simp]:
  "unicode_at (st\<lparr>heap := heap st @ [Some (rc, PyUnicode v)], mem_avail := m\<rparr>) (length (heap st)) = Some v"
  by (simp add: unicode_at_def obj_at_def)

lemma initialised_module_imported [simp]: "initialised (module_imported mem obs)"
  by (simp add: initialised_def module_imported_def init_constants_def static_init_def)

lemma heap_module_imported [simp]:
  "heap (module_imported mem obs) = map (\<lambda>ob. Some (1, ob)) obs"
  "mem_avail (module_imported mem obs) = mem"
  "markup (module_imported mem obs) = Some Markup_class"
  by (simp_all add: module_imported_def init_constants_def static_init_def)

lemma escape_unicode_text:
  assumes "initialised st" and "unicode_at st a = Some u" and "PyUnicode_wf u"
    and "output_fits st u"
  shows "\<exists>r st'. escape_unicode st a = Inr (r, st') \<and>
           unicode_at st' r = Some (if match_count (text_of u) = 0 then u
                                    else unicode_of_text (escape_text_spec (text_of u)))"
proof -
  have "match_count (text_of u) \<noteq> 0 \<Longrightarrow>
      int (length (escape_text_spec (text_of u))) < int (mem_avail st)"
    using assms(3,4) by (simp add: output_fits_def length_escape_text_spec wf_length)
  then have "match_count (text_of u) \<noteq> 0 \<Longrightarrow>
      \<not> mem_avail st < length (escape_text_spec (text_of u)) + 1"
    by simp
  then show ?thesis
    using assms(2) by (simp add: escape_unicode_result [OF assms(1-3)])
qed

lemma heap_INCREF [simp]:
  "length (heap (Py_INCREF st a)) = length (heap st)"
  "mem_avail (Py_INCREF st a) = mem_avail st"
  "markup (Py_INCREF st a) = markup st"
  "escaped_chars_delta_len (Py_INCREF st a) = escaped_chars_delta_len st"
  "escaped_chars_repl (Py_INCREF st a) = escaped_chars_repl st"
  by (simp_all add: Py_INCREF_def)

lemma fields_unicode_of_text [simp]:
  "str (unicode_of_text xs) = xs @ [0]" "length_u (unicode_of_text xs) = length xs"
  by (simp_all add: unicode_of_text_def)

lemma utext_simps [simp]:
  "PyUnicode_wf (utext x)" "text_of (utext x) = map of_char x"
  "length_u (utext x) = length x" "str (utext x) = map of_char x @ [0]"
  by (simp_all add: utext_def)

lemma obj_at_module_imported [simp]:
  "obj_at (module_imported mem obs) a = (if a < length obs then Some (obs ! a) else None)"
  by (simp add: obj_at_def)

lemma unicode_at_module_imported [simp]:
  "unicode_at (module_imported mem (PyUnicode u # obs)) 0 = Some u"
  by (simp add: unicode_at_def)

subsection \<open>Bounds, and the memory of the output\<close>

lemma total_delta_bounds: "0 \<le> total_delta xs \<and> total_delta xs \<le> 4 * int (length xs)"
  by (induction xs) (simp_all add: total_delta_def delta_of_def)

lemma total_delta_clean: "match_count xs = 0 \<Longrightarrow> total_delta xs = 0"
  by (induction xs)
     (simp_all add: match_count_def total_delta_def delta_of_escapable [symmetric] split: if_splits)

lemma scan_pass_bounds:
  assumes "initialised st" and "PyUnicode_wf u"
  shows "\<exists>delta erepl. scan_pass st (str u) (length_u u) 0 0 0 = Inr (delta, erepl) \<and>
           0 \<le> delta \<and> delta \<le> 4 * int (length_u u) \<and> 0 \<le> erepl \<and> erepl \<le> int (length_u u)"
proof -
  have "scan_pass st (text_of u @ [0]) (length (text_of u)) 0 0 0 =
      Inr (total_delta (text_of u), int (match_count (text_of u)))"
    using scan_pass_from [OF assms(1), of 0 "text_of u" 0 0] by simp
  moreover have "match_count (text_of u) \<le> length (text_of u)"
    by (simp add: match_count_def)
  ultimately show ?thesis
    using total_delta_bounds [of "text_of u"] assms(2)
    by (simp add: wf_str wf_length [symmetric])
qed

lemma scan_pass_wf:
  assumes "initialised st" and "PyUnicode_wf u"
  shows "scan_pass st (str u) (length_u u) 0 0 0 =
           Inr (total_delta (text_of u), int (match_count (text_of u)))"
  using scan_pass_from [OF assms(1), of 0 "text_of u" 0 0] assms(2)
  by (simp add: wf_str wf_length [symmetric])

lemma output_fits_I:
  "int (length_u u) + total_delta (text_of u) < int (mem_avail st) \<Longrightarrow> output_fits st u"
  by (simp add: output_fits_def)

lemma enough_memory:
  assumes "PyUnicode_wf u" and "output_fits st u" and "match_count (text_of u) \<noteq> 0"
  shows "\<not> mem_avail st < length (escape_text_spec (text_of u)) + 1"
proof -
  have "int (length (escape_text_spec (text_of u))) < int (mem_avail st)"
    using assms by (simp add: output_fits_def length_escape_text_spec wf_length)
  then show ?thesis by simp
qed

lemma initialised_tables:
  "escaped_chars_delta_len st' = escaped_chars_delta_len st \<Longrightarrow>
   escaped_chars_repl st' = escaped_chars_repl st \<Longrightarrow> initialised st \<Longrightarrow> initialised st'"
  by (simp add: initialised_def init_constants_def static_init_def)

lemma escape_unicode_post:
  assumes "initialised st" and "unicode_at st a = Some u" and "PyUnicode_wf u"
    and "output_fits st u"
  shows "\<exists>r st' v. escape_unicode st a = Inr (r, st') \<and> unicode_at st' r = Some v \<and>
           PyUnicode_wf v \<and> text_of v = escape_text_spec (text_of u) \<and> initialised st' \<and>
           markup st' = markup st \<and>
           mem_avail st \<le> mem_avail st' + (length (escape_text_spec (text_of u)) + 1)"
proof (cases "match_count (text_of u) = 0")
  case True
  have "initialised (Py_INCREF st a)"
    using assms(1) by (rule initialised_tables [rotated 2]) simp_all
  then show ?thesis
    using True assms(2,3)
    by (simp add: escape_unicode_result [OF assms(1-3)] escape_text_spec_fixed)
next
  case False
  let ?st' = "st\<lparr>heap := heap st @
               [Some (1, PyUnicode (unicode_of_text (escape_text_spec (text_of u))))],
           mem_avail := mem_avail st - (length (escape_text_spec (text_of u)) + 1)\<rparr>"
  have "initialised ?st'"
    using assms(1) by (rule initialised_tables [rotated 2]) simp_all
  then show ?thesis
    using False enough_memory [OF assms(3,4) False]
    by (simp add: escape_unicode_result [OF assms(1-3)])
qed

subsection \<open>Codepoints above the table, and zero\<close>

lemma table_cond_above: "\<not> c < of_nat ESCAPED_CHARS_TABLE_SIZE \<Longrightarrow> table_cond st c = Inr None"
  by (simp add: table_cond_def)

lemma not_escapable_above: "\<not> c < of_nat ESCAPED_CHARS_TABLE_SIZE \<Longrightarrow> \<not> escapable c"
  using escapable_below [of c] by (auto simp: below_table_size)

lemma escape_text_spec_NUL:
  "escape_text_spec (xs @ 0 # ys) = escape_text_spec xs @ 0 # escape_text_spec ys"
  by (simp add: escape_text_spec_append escape_text_spec_Cons replacement_image_def chr_defs)

lemma total_delta_NUL: "total_delta (xs @ 0 # ys) = total_delta xs + total_delta ys"
  by (simp add: total_delta_def delta_of_def chr_defs)

lemma match_count_NUL: "match_count (xs @ 0 # ys) = match_count xs + match_count ys"
  by (simp add: match_count_def escapable_def chr_defs)

lemma scan_pass_NUL_step:
  assumes "initialised st" and "inp < inp_end" and "inp < length buf" and "buf ! inp = 0"
  shows "scan_pass st buf inp_end inp delta erepl = scan_pass st buf inp_end (Suc inp) delta erepl"
proof -
  have "table_cond st 0 = Inr (Some 0)"
    using assms(1) by (simp add: table_cond_init delta_of_def chr_defs)
  then show ?thesis
    using assms(2-4) by (subst scan_pass.simps) simp
qed

subsection \<open>The escaped text has no unescaped character\<close>

lemma image_no_specials:
  "x \<in> set (replacement_image c) \<Longrightarrow> x \<noteq> chr_quot \<and> x \<noteq> chr_apos \<and> x \<noteq> chr_lt \<and> x \<noteq> chr_gt"
  by (auto simp: replacement_image_unat chr_defs word_eq_unat split: if_splits)

lemma escape_text_spec_no_specials:
  "x \<in> set (escape_text_spec xs) \<Longrightarrow> x \<noteq> chr_quot \<and> x \<noteq> chr_apos \<and> x \<noteq> chr_lt \<and> x \<noteq> chr_gt"
  using image_no_specials by (auto simp: escape_text_spec_def)

lemma image_amp_first:
  "i < length (replacement_image c) \<Longrightarrow> replacement_image c ! i = chr_amp \<Longrightarrow> i = 0 \<and> escapable c"
  by (auto simp: replacement_image_unat escapable_unat chr_defs word_eq_unat nth_Cons'
        split: if_splits)

lemma starts_replacement_here:
  "escapable c \<Longrightarrow> starts_replacement (replacement_image c @ rest) 0"
  by (auto simp: starts_replacement_def escapable_def)

lemma starts_replacement_shift:
  "starts_replacement out i \<Longrightarrow> starts_replacement (pre @ out) (length pre + i)"
  by (simp add: starts_replacement_def)

lemma escape_text_spec_amp:
  "i < length (escape_text_spec xs) \<Longrightarrow> escape_text_spec xs ! i = chr_amp \<Longrightarrow>
   starts_replacement (escape_text_spec xs) i"
proof (induction xs arbitrary: i)
  case Nil
  then show ?case by (simp add: escape_text_spec_def)
next
  case (Cons x xs)
  let ?img = "replacement_image x"
  show ?case
  proof (cases "i < length ?img")
    case True
    then have "?img ! i = chr_amp"
      using Cons.prems(2) by (simp add: escape_text_spec_Cons nth_append)
    then have "i = 0 \<and> escapable x"
      using True by (rule image_amp_first [rotated])
    then show ?thesis
      by (simp add: escape_text_spec_Cons starts_replacement_here)
  next
    case False
    then obtain j where j: "i = length ?img + j"
      by (metis le_Suc_ex not_le_imp_less)
    then have "j < length (escape_text_spec xs)" "escape_text_spec xs ! j = chr_amp"
      using Cons.prems by (simp_all add: escape_text_spec_Cons nth_append)
    then have "starts_replacement (escape_text_spec xs) j"
      by (rule Cons.IH)
    then show ?thesis
      unfolding j escape_text_spec_Cons by (rule starts_replacement_shift)
  qed
qed

lemma no_unescaped_escape_text_spec: "no_unescaped (escape_text_spec xs)"
  using escape_text_spec_no_specials [of _ xs] escape_text_spec_amp [of _ xs]
  by (auto simp: no_unescaped_def)

subsection \<open>Escaping changes a text that has an escapable character\<close>

lemma total_delta_pos: "match_count xs \<noteq> 0 \<Longrightarrow> 0 < total_delta xs"
proof (induction xs)
  case Nil
  then show ?case by (simp add: match_count_def)
next
  case (Cons x xs)
  have "0 \<le> total_delta xs" using total_delta_bounds by blast
  moreover have "0 \<le> delta_of x" by (simp add: delta_of_def)
  moreover have "escapable x \<Longrightarrow> 0 < delta_of x"
    by (auto simp: delta_of_unat escapable_unat)
  ultimately show ?case
    using Cons by (cases "escapable x") (simp_all add: match_count_def total_delta_def)
qed

lemma escape_text_spec_changes: "match_count xs \<noteq> 0 \<Longrightarrow> escape_text_spec xs \<noteq> xs"
proof
  assume mc: "match_count xs \<noteq> 0" and eq: "escape_text_spec xs = xs"
  from mc have "0 < total_delta xs" by (rule total_delta_pos)
  moreover have "int (length (escape_text_spec xs)) = int (length xs)" by (simp add: eq)
  ultimately show False by (simp add: length_escape_text_spec)
qed

lemma amp_in_image: "escapable c \<Longrightarrow> chr_amp \<in> set (replacement_image c)"
  by (auto simp: replacement_image_unat escapable_unat chr_defs)

lemma amp_in_escape_text_spec:
  "match_count xs \<noteq> 0 \<Longrightarrow> chr_amp \<in> set (escape_text_spec xs)"
  by (auto simp: match_count_0 escape_text_spec_def intro: amp_in_image)

lemma escapable_amp: "escapable chr_amp"
  by (simp add: escapable_def)

subsection \<open>The entry point \<^verbatim>\<open>escape\<close>\<close>

lemma heap_DECREF [simp]:
  "length (heap (Py_DECREF st a)) = length (heap st)"
  "markup (Py_DECREF st a) = markup st"
  "escaped_chars_delta_len (Py_DECREF st a) = escaped_chars_delta_len st"
  "escaped_chars_repl (Py_DECREF st a) = escaped_chars_repl st"
  by (auto simp: Py_DECREF_def split: option.splits)

lemma mem_avail_DECREF: "mem_avail st \<le> mem_avail (Py_DECREF st a)"
  by (auto simp: Py_DECREF_def split: option.splits)

lemma obj_at_DECREF_other: "a \<noteq> b \<Longrightarrow> obj_at (Py_DECREF st a) b = obj_at st b"
  by (auto simp: Py_DECREF_def obj_at_def split: option.splits)

lemma DECREF_INCREF:
  "a < length (heap st) \<Longrightarrow> heap st ! a = Some (rc, ob) \<Longrightarrow> 0 < rc \<Longrightarrow>
   Py_DECREF (Py_INCREF st a) a = st"
  by (simp add: Py_DECREF_def Py_INCREF_def list_update_same_conv)

lemma alloc_object_ok:
  "cells_of ob \<le> mem_avail st \<Longrightarrow>
   alloc_object st ob = Inr (length (heap st),
     st\<lparr>heap := heap st @ [Some (1, ob)], mem_avail := mem_avail st - cells_of ob\<rparr>)"
  by (simp add: alloc_object_def)

lemma obj_at_append [simp]:
  "obj_at (st\<lparr>heap := heap st @ [Some (rc, ob)], mem_avail := m\<rparr>) b =
     (if b = length (heap st) then Some ob else obj_at st b)"
  by (auto simp: obj_at_def nth_append)

lemma obj_at_in_heap: "obj_at st a = Some ob \<Longrightarrow> a < length (heap st)"
  by (simp add: obj_at_def split: if_splits)

lemma unicode_at_conversion:
  "unicode_at st r = Some v \<Longrightarrow> \<exists>ob. obj_at st r = Some ob \<and> text_conversion ob = Inr (text_of v)"
  by (auto simp: unicode_at_def split: option.splits PyObject.splits)

lemma wrap_markup_ok:
  assumes "markup st = Some Markup_class" and "obj_at st s = Some ob"
    and "text_conversion ob = Inr t" and "length t < mem_avail st"
  shows "\<exists>st'. wrap_markup (Inr (s, st)) = Inr (length (heap st), st') \<and>
           obj_at st' (length (heap st)) = Some (Markup (unicode_of_text t))"
proof -
  have "s \<noteq> length (heap st)"
    using obj_at_in_heap [OF assms(2)] by simp
  then show ?thesis
    using assms
    by (simp add: wrap_markup_def PyObject_CallFunctionObjArgs_def alloc_object_ok
          obj_at_DECREF_other)
qed

lemma length_escape_text_spec_ge: "length xs \<le> length (escape_text_spec xs)"
  using length_escape_text_spec [of xs] total_delta_bounds [of xs] by linarith

lemma escape_of_unicode:
  assumes "initialised st" and "markup st = Some Markup_class"
    and "obj_at st a = Some (PyUnicode (unicode_of_text t))"
    and "2 * (length (escape_text_spec t) + 1) \<le> mem_avail st"
  shows "\<exists>rv st'. escape st a = Inr (rv, st') \<and>
           obj_at st' rv = Some (Markup (unicode_of_text (escape_text_spec t)))"
proof -
  let ?u = "unicode_of_text t"
  have u: "unicode_at st a = Some ?u"
    by (simp add: unicode_at_def assms(3))
  have mem: "int (length_u ?u) + total_delta (text_of ?u) < int (mem_avail st)"
    using assms(4) length_escape_text_spec [of t] by simp
  from escape_unicode_post [OF assms(1) u wf_unicode_of_text output_fits_I [OF mem]]
  obtain r st1 v where run: "escape_unicode st a = Inr (r, st1)" and v: "unicode_at st1 r = Some v"
    and tv: "text_of v = escape_text_spec t" and m1: "markup st1 = markup st"
    and avail: "mem_avail st \<le> mem_avail st1 + (length (escape_text_spec t) + 1)"
    by auto
  from unicode_at_conversion [OF v]
  obtain ob where ob: "obj_at st1 r = Some ob" "text_conversion ob = Inr (escape_text_spec t)"
    by (auto simp: tv)
  have "length (escape_text_spec t) < mem_avail st1"
    using assms(4) avail by simp
  from wrap_markup_ok [OF _ ob this] m1 assms(2)
  obtain st' where "wrap_markup (Inr (r, st1)) = Inr (length (heap st1), st')"
    "obj_at st' (length (heap st1)) = Some (Markup (unicode_of_text (escape_text_spec t)))"
    by auto
  moreover have "escape st a = wrap_markup (escape_unicode st a)"
    by (simp add: escape_def assms(3) PyObject_GetAttrString_html_def)
  ultimately show ?thesis
    by (simp add: run)
qed

lemma escape_of_other:
  assumes "initialised st" and "markup st = Some Markup_class"
    and "obj_at st a = Some ob" and "ob = PyOther None (Inr t) \<or> ob = PyComplex t"
    and "3 * (length (escape_text_spec t) + 1) \<le> mem_avail st"
  shows "\<exists>rv st'. escape st a = Inr (rv, st') \<and>
           rv = (if match_count t = 0 then Suc (length (heap st)) else Suc (Suc (length (heap st)))) \<and>
           obj_at st' rv = Some (Markup (unicode_of_text (escape_text_spec t)))"
proof -
  let ?u = "unicode_of_text t"
  let ?n = "length (heap st)"
  let ?N = "length (escape_text_spec t)"
  define st1 where "st1 = st\<lparr>heap := heap st @ [Some (1, PyUnicode ?u)],
                 mem_avail := mem_avail st - cells_of (PyUnicode ?u)\<rparr>"
  have le: "length t \<le> ?N" by (rule length_escape_text_spec_ge)
  have conv: "PyObject_Unicode st a = Inr (?n, st1)"
    using assms(3,4,5) le by (auto simp: PyObject_Unicode_def alloc_object_ok st1_def)
  have init1: "initialised st1"
    using assms(1) by (rule initialised_tables [rotated 2]) (simp_all add: st1_def)
  have u1: "unicode_at st1 ?n = Some ?u"
    by (simp add: unicode_at_def st1_def)
  have heap1: "heap st1 = heap st @ [Some (1, PyUnicode ?u)]"
    and mem1: "mem_avail st1 = mem_avail st - (length t + 1)"
    and markup1: "markup st1 = Some Markup_class"
    using assms(2) by (simp_all add: st1_def)
  have esc: "escape st a =
      wrap_markup (case escape_unicode st1 ?n of Inl e \<Rightarrow> Inl e
                   | Inr (s, st2) \<Rightarrow> Inr (s, Py_DECREF st2 ?n))"
    using assms(3,4) by (auto simp: escape_def PyObject_GetAttrString_html_def conv)
  show ?thesis
  proof (cases "match_count t = 0")
    case True
    have restored: "Py_DECREF (Py_INCREF st1 ?n) ?n = st1"
      by (rule DECREF_INCREF [where rc = 1]) (simp_all add: heap1)
    have run: "escape st a = wrap_markup (Inr (?n, st1))"
      using True by (simp add: esc escape_unicode_result [OF init1 u1 wf_unicode_of_text] restored)
    have "obj_at st1 ?n = Some (PyUnicode ?u)"
      by (simp add: st1_def)
    moreover have "length t < mem_avail st1"
      using assms(5) le by (simp add: mem1)
    ultimately have "\<exists>st'. wrap_markup (Inr (?n, st1)) = Inr (length (heap st1), st') \<and>
        obj_at st' (length (heap st1)) = Some (Markup (unicode_of_text t))"
      using markup1 by (intro wrap_markup_ok [where ob = "PyUnicode ?u"]) simp_all
    then show ?thesis
      using True by (auto simp: run escape_text_spec_fixed heap1)
  next
    case False
    define st2 where "st2 = st1\<lparr>heap := heap st1 @
          [Some (1, PyUnicode (unicode_of_text (escape_text_spec t)))],
        mem_avail := mem_avail st1 - (?N + 1)\<rparr>"
    have enough: "\<not> mem_avail st1 < ?N + 1"
      using assms(5) le by (simp add: mem1)
    have len1: "length (heap st1) = Suc ?n"
      by (simp add: heap1)
    have run: "escape st a = wrap_markup (Inr (Suc ?n, Py_DECREF st2 ?n))"
      using False enough
      by (simp add: esc escape_unicode_result [OF init1 u1 wf_unicode_of_text] len1 st2_def)
    have "obj_at st2 (Suc ?n) = Some (PyUnicode (unicode_of_text (escape_text_spec t)))"
      by (simp add: st2_def len1)
    then have ob: "obj_at (Py_DECREF st2 ?n) (Suc ?n) =
        Some (PyUnicode (unicode_of_text (escape_text_spec t)))"
      by (simp add: obj_at_DECREF_other)
    have "?N < mem_avail st2"
      using assms(5) le by (simp add: st2_def mem1)
    then have mem: "?N < mem_avail (Py_DECREF st2 ?n)"
      using mem_avail_DECREF [of st2 ?n] by linarith
    have "markup (Py_DECREF st2 ?n) = Some Markup_class"
      by (simp add: st2_def markup1)
    from wrap_markup_ok [OF this ob _ mem]
    have "\<exists>st'. wrap_markup (Inr (Suc ?n, Py_DECREF st2 ?n)) =
          Inr (length (heap (Py_DECREF st2 ?n)), st') \<and>
        obj_at st' (length (heap (Py_DECREF st2 ?n))) =
          Some (Markup (unicode_of_text (escape_text_spec t)))"
      by simp
    then show ?thesis
      using False by (auto simp: run st2_def heap1)
  qed
qed

lemma decimal_42: "decimal 42 = map of_char ''42''"
  by (simp add: decimal_def decimal_nat.simps)

section \<open>The claims\<close>

text \<open>
  Claim C1. For every input codepoint sequence (the text of a well-formed unicode object),
  \<^verbatim>\<open>escape_unicode\<close> returns an object whose text is the concatenation, in input
  order, of the images of the codepoints: \<^verbatim>\<open>"\<close> gives \<^verbatim>\<open>&#34;\<close>, \<^verbatim>\<open>'\<close> gives
  \<^verbatim>\<open>&#39;\<close>, \<^verbatim>\<open>&\<close> gives \<^verbatim>\<open>&amp;\<close>, \<^verbatim>\<open><\<close> gives \<^verbatim>\<open>&lt;\<close>, \<^verbatim>\<open>>\<close> gives \<^verbatim>\<open>&gt;\<close>
  and every other codepoint is its own image (\<open>replacement_image\<close>). The last
  hypothesis says that the memory for the output is there: the code asks for
  \<open>length + delta\<close> cells and one more for the terminator.
\<close>

theorem escape_unicode_concat_images:
  assumes "initialised st" and "unicode_at st a = Some u" and "PyUnicode_wf u"
    and "output_fits st u"
  shows "\<exists>r st' v. escape_unicode st a = Inr (r, st') \<and> unicode_at st' r = Some v \<and>
           PyUnicode_wf v \<and> text_of v = concat (map replacement_image (text_of u))"
proof -
  from escape_unicode_text [OF assms]
  obtain r st' where r: "escape_unicode st a = Inr (r, st')"
    and v: "unicode_at st' r = Some (if match_count (text_of u) = 0 then u
                                    else unicode_of_text (escape_text_spec (text_of u)))"
    by blast
  let ?v = "if match_count (text_of u) = 0 then u else unicode_of_text (escape_text_spec (text_of u))"
  have "PyUnicode_wf ?v" using assms(3) by simp
  moreover have "text_of ?v = concat (map replacement_image (text_of u))"
    using escape_text_spec_fixed [of "text_of u"] by (auto simp: escape_text_spec_def)
  ultimately show ?thesis using r v by blast
qed

theorem escape_unicode_concat_images_witness:
  "initialised (module_imported 100 [PyUnicode (utext ''Tom & Jerry'')]) \<and>
   unicode_at (module_imported 100 [PyUnicode (utext ''Tom & Jerry'')]) 0 = Some (utext ''Tom & Jerry'') \<and>
   PyUnicode_wf (utext ''Tom & Jerry'') \<and>
   output_fits (module_imported 100 [PyUnicode (utext ''Tom & Jerry'')]) (utext ''Tom & Jerry'') \<and>
   (\<exists>r st' v. escape_unicode (module_imported 100 [PyUnicode (utext ''Tom & Jerry'')]) 0 = Inr (r, st') \<and>
     unicode_at st' r = Some v \<and> PyUnicode_wf v \<and> text_of v = map of_char ''Tom &amp; Jerry'')"
proof -
  have hyps: "initialised (module_imported 100 [PyUnicode (utext ''Tom & Jerry'')]) \<and>
   unicode_at (module_imported 100 [PyUnicode (utext ''Tom & Jerry'')]) 0 = Some (utext ''Tom & Jerry'') \<and>
   PyUnicode_wf (utext ''Tom & Jerry'') \<and>
   output_fits (module_imported 100 [PyUnicode (utext ''Tom & Jerry'')]) (utext ''Tom & Jerry'')"
    by (simp add: output_fits_def total_delta_def delta_of_def chr_defs)
  have concl: "\<exists>r st' v. escape_unicode (module_imported 100 [PyUnicode (utext ''Tom & Jerry'')]) 0 = Inr (r, st') \<and>
     unicode_at st' r = Some v \<and> PyUnicode_wf v \<and> text_of v = map of_char ''Tom &amp; Jerry''"
  proof -
    let ?st = "module_imported 100 [PyUnicode (utext ''Tom & Jerry'')]"
    have h1: "initialised ?st"
      by (simp add: initialised_def module_imported_def init_constants_def static_init_def)
    have h2: "unicode_at ?st 0 = Some (utext ''Tom & Jerry'')"
      by (simp add: unicode_at_def obj_at_def module_imported_def init_constants_def static_init_def)
    have h3: "PyUnicode_wf (utext ''Tom & Jerry'')"
      by (simp add: utext_def PyUnicode_wf_def unicode_of_text_def)
    have h4: "int (length_u (utext ''Tom & Jerry'')) + total_delta (text_of (utext ''Tom & Jerry''))
        < int (mem_avail ?st)"
      by (simp add: utext_def unicode_of_text_def text_of_def total_delta_def delta_of_def chr_defs
            module_imported_def init_constants_def static_init_def)
    have img: "concat (map replacement_image (text_of (utext ''Tom & Jerry''))) = map of_char ''Tom &amp; Jerry''"
      by (simp add: utext_def unicode_of_text_def text_of_def replacement_image_def chr_defs)
    show ?thesis
      using escape_unicode_concat_images [OF h1 h2 h3 output_fits_I [OF h4]] by (simp only: img)
  qed
  show ?thesis using hyps concl by blast
qed

text \<open>
  Claim C2. For every input sequence, the length of the output of \<^verbatim>\<open>escape_unicode\<close> is
  the length of the input plus the sum of the deltas of its codepoints (\<open>total_delta\<close>: 4
  for \<^verbatim>\<open>"\<close>, \<^verbatim>\<open>'\<close> and \<^verbatim>\<open>&\<close>, 3 for \<^verbatim>\<open><\<close> and \<^verbatim>\<open>>\<close>, 0 otherwise). The scan pass
  computes that sum and the number of matches; when there is a match, the output is a
  new object whose buffer has exactly that many cells and the terminator's, and the
  allocator has handed out exactly those.
\<close>

theorem escape_unicode_length:
  assumes "initialised st" and "unicode_at st a = Some u" and "PyUnicode_wf u"
    and "output_fits st u"
  shows "scan_pass st (str u) (length_u u) 0 0 0 =
           Inr (total_delta (text_of u), int (match_count (text_of u))) \<and>
         (\<exists>r st' v. escape_unicode st a = Inr (r, st') \<and> unicode_at st' r = Some v \<and>
            int (length (text_of v)) = int (length (text_of u)) + total_delta (text_of u) \<and>
            int (length_u v) = int (length_u u) + total_delta (text_of u) \<and>
            (match_count (text_of u) \<noteq> 0 \<longrightarrow>
               r = length (heap st) \<and> length (heap st') = length (heap st) + 1 \<and>
               int (length (str v)) = int (length_u u) + total_delta (text_of u) + 1 \<and>
               int (mem_avail st') =
                 int (mem_avail st) - (int (length_u u) + total_delta (text_of u) + 1)))"
proof -
  let ?xs = "text_of u"
  have len: "int (length (escape_text_spec ?xs)) = int (length_u u) + total_delta ?xs"
    using assms(3) by (simp add: length_escape_text_spec wf_length)
  have mem: "match_count ?xs \<noteq> 0 \<Longrightarrow> \<not> mem_avail st < length (escape_text_spec ?xs) + 1"
    by (rule enough_memory [OF assms(3,4)])
  show ?thesis
  proof (cases "match_count ?xs = 0")
    case True
    then have "total_delta ?xs = 0"
      by (rule total_delta_clean)
    then show ?thesis
      using True assms(2,3)
      by (simp add: scan_pass_wf [OF assms(1,3)] escape_unicode_result [OF assms(1-3)] wf_length)
  next
    case False
    then show ?thesis
      using mem len
      by (simp add: scan_pass_wf [OF assms(1,3)] escape_unicode_result [OF assms(1-3)]
            wf_length [OF assms(3)])
  qed
qed

theorem escape_unicode_length_witness:
  "initialised (module_imported 100 [PyUnicode (utext ''a < b & c'')]) \<and>
   unicode_at (module_imported 100 [PyUnicode (utext ''a < b & c'')]) 0 = Some (utext ''a < b & c'') \<and>
   PyUnicode_wf (utext ''a < b & c'') \<and>
   output_fits (module_imported 100 [PyUnicode (utext ''a < b & c'')]) (utext ''a < b & c'') \<and>
   (scan_pass (module_imported 100 [PyUnicode (utext ''a < b & c'')]) (str (utext ''a < b & c''))
     (length_u (utext ''a < b & c'')) 0 0 0
     = Inr (7, 2) \<and>
   (\<exists>st' v. escape_unicode (module_imported 100 [PyUnicode (utext ''a < b & c'')]) 0 = Inr (1, st') \<and>
      unicode_at st' 1 = Some v \<and> length (text_of v) = 16 \<and> length_u v = 16 \<and>
      length (str v) = 17 \<and> mem_avail st' = 83))"
proof -
  have hyps: "initialised (module_imported 100 [PyUnicode (utext ''a < b & c'')]) \<and>
   unicode_at (module_imported 100 [PyUnicode (utext ''a < b & c'')]) 0 = Some (utext ''a < b & c'') \<and>
   PyUnicode_wf (utext ''a < b & c'') \<and>
   output_fits (module_imported 100 [PyUnicode (utext ''a < b & c'')]) (utext ''a < b & c'')"
    by (simp add: output_fits_def total_delta_def delta_of_def chr_defs)
  have concl: "scan_pass (module_imported 100 [PyUnicode (utext ''a < b & c'')]) (str (utext ''a < b & c''))
     (length_u (utext ''a < b & c'')) 0 0 0
     = Inr (7, 2) \<and>
   (\<exists>st' v. escape_unicode (module_imported 100 [PyUnicode (utext ''a < b & c'')]) 0 = Inr (1, st') \<and>
      unicode_at st' 1 = Some v \<and> length (text_of v) = 16 \<and> length_u v = 16 \<and>
      length (str v) = 17 \<and> mem_avail st' = 83)"
  proof -
    let ?st = "module_imported 100 [PyUnicode (utext ''a < b & c'')]"
    let ?u = "utext ''a < b & c''"
    have td: "total_delta (text_of ?u) = 7"
      by (simp add: total_delta_def delta_of_def chr_defs)
    have mc: "match_count (text_of ?u) = 2"
      by (simp add: match_count_def escapable_def chr_defs)
    have h4: "int (length_u ?u) + total_delta (text_of ?u) < int (mem_avail ?st)"
      by (simp only: td) simp
    show ?thesis
      using escape_unicode_length [OF initialised_module_imported unicode_at_module_imported
          utext_simps(1) output_fits_I [OF h4]]
      by (simp only: td mc) auto
  qed
  show ?thesis using hyps concl by blast
qed

text \<open>
  Claim C3. The output of \<^verbatim>\<open>escape_unicode\<close> has no unescaped instance of the five
  characters (\<open>no_unescaped\<close>): no \<^verbatim>\<open>"\<close>, \<^verbatim>\<open>'\<close>, \<^verbatim>\<open><\<close> or \<^verbatim>\<open>>\<close> at all, and every
  \<^verbatim>\<open>&\<close> in it begins one of the five replacement sequences. And whenever \<^verbatim>\<open>escape\<close>
  passes a text to \<^verbatim>\<open>escape_unicode\<close> (the argument is an exact unicode object, or an
  object without \<^verbatim>\<open>__html__\<close> whose conversion to text succeeds), what it returns is
  that output wrapped as a \<^verbatim>\<open>Markup\<close> object. The numbers and the objects with
  \<^verbatim>\<open>__html__\<close> do not reach \<^verbatim>\<open>escape_unicode\<close>; they are not the subject here.
\<close>

theorem escaped_text_is_safe_markup:
  assumes "initialised st" and "markup st = Some Markup_class" and "obj_at st a = Some ob"
    and "ob = PyUnicode (unicode_of_text t) \<or> ob = PyOther None (Inr t) \<or> ob = PyComplex t"
    and "3 * (length (escape_text_spec t) + 1) \<le> mem_avail st"
  shows "(\<forall>b u. unicode_at st b = Some u \<and> PyUnicode_wf u \<and> output_fits st u \<longrightarrow>
            (\<exists>r st' v. escape_unicode st b = Inr (r, st') \<and> unicode_at st' r = Some v \<and>
               no_unescaped (text_of v))) \<and>
         (\<exists>rv st' out. escape st a = Inr (rv, st') \<and>
            obj_at st' rv = Some (Markup (unicode_of_text out)) \<and>
            out = escape_text_spec t \<and> no_unescaped out)"
proof -
  have one: "\<exists>r st' v. escape_unicode st b = Inr (r, st') \<and> unicode_at st' r = Some v \<and>
               no_unescaped (text_of v)"
    if "unicode_at st b = Some u" and "PyUnicode_wf u" and "output_fits st u" for b u
    using escape_unicode_post [OF assms(1) that] no_unescaped_escape_text_spec [of "text_of u"]
    by auto
  have two: "\<exists>rv st'. escape st a = Inr (rv, st') \<and>
      obj_at st' rv = Some (Markup (unicode_of_text (escape_text_spec t)))"
    using assms(4)
  proof
    assume "ob = PyUnicode (unicode_of_text t)"
    then show ?thesis
      using assms(3,5) by (intro escape_of_unicode [OF assms(1,2)]) simp_all
  next
    assume "ob = PyOther None (Inr t) \<or> ob = PyComplex t"
    from escape_of_other [OF assms(1,2,3) this assms(5)] show ?thesis
      by blast
  qed
  show ?thesis
    using one two no_unescaped_escape_text_spec [of t] by blast
qed

theorem escaped_text_is_safe_markup_witness:
  "initialised (module_imported 100 [PyUnicode (utext ''a<b'')]) \<and>
   markup (module_imported 100 [PyUnicode (utext ''a<b'')]) = Some Markup_class \<and>
   obj_at (module_imported 100 [PyUnicode (utext ''a<b'')]) 0 = Some (PyUnicode (utext ''a<b'')) \<and>
   utext ''a<b'' = unicode_of_text (map of_char ''a<b'') \<and>
   3 * (length (escape_text_spec (map of_char ''a<b'')) + 1) \<le> mem_avail (module_imported 100 [PyUnicode (utext ''a<b'')]) \<and>
   ((\<exists>r st' v. escape_unicode (module_imported 100 [PyUnicode (utext ''a<b'')]) 0 = Inr (r, st') \<and>
      unicode_at st' r = Some v \<and> no_unescaped (text_of v)) \<and>
   (\<exists>rv st'. escape (module_imported 100 [PyUnicode (utext ''a<b'')]) 0 = Inr (rv, st') \<and>
      obj_at st' rv = Some (Markup (utext ''a&lt;b'')) \<and> no_unescaped (map of_char ''a&lt;b'')))"
proof -
  have hyps: "initialised (module_imported 100 [PyUnicode (utext ''a<b'')]) \<and>
   markup (module_imported 100 [PyUnicode (utext ''a<b'')]) = Some Markup_class \<and>
   obj_at (module_imported 100 [PyUnicode (utext ''a<b'')]) 0 = Some (PyUnicode (utext ''a<b'')) \<and>
   utext ''a<b'' = unicode_of_text (map of_char ''a<b'') \<and>
   3 * (length (escape_text_spec (map of_char ''a<b'')) + 1) \<le> mem_avail (module_imported 100 [PyUnicode (utext ''a<b'')])"
    by (simp add: utext_def escape_text_spec_def replacement_image_def chr_defs)
  have concl: "(\<exists>r st' v. escape_unicode (module_imported 100 [PyUnicode (utext ''a<b'')]) 0 = Inr (r, st') \<and>
      unicode_at st' r = Some v \<and> no_unescaped (text_of v)) \<and>
   (\<exists>rv st'. escape (module_imported 100 [PyUnicode (utext ''a<b'')]) 0 = Inr (rv, st') \<and>
      obj_at st' rv = Some (Markup (utext ''a&lt;b'')) \<and> no_unescaped (map of_char ''a&lt;b''))"
  proof -
    let ?st = "module_imported 100 [PyUnicode (utext ''a<b'')]"
    have e: "escape_text_spec (map of_char ''a<b'') = map of_char ''a&lt;b''"
      by (simp add: escape_text_spec_def replacement_image_def chr_defs)
    have h3: "obj_at ?st 0 = Some (PyUnicode (utext ''a<b''))" by simp
    have h4: "PyUnicode (utext ''a<b'') = PyUnicode (unicode_of_text (map of_char ''a<b'')) \<or>
        PyUnicode (utext ''a<b'') = PyOther None (Inr (map of_char ''a<b'')) \<or>
        PyUnicode (utext ''a<b'') = PyComplex (map of_char ''a<b'')"
      by (simp add: utext_def)
    have h5: "3 * (length (escape_text_spec (map of_char ''a<b'')) + 1) \<le> mem_avail ?st"
      by (simp only: e) simp
    have u: "unicode_at ?st 0 = Some (utext ''a<b'')" by simp
    have td: "total_delta (text_of (utext ''a<b'')) = 3"
      by (simp add: total_delta_def delta_of_def chr_defs)
    have mem: "int (length_u (utext ''a<b'')) + total_delta (text_of (utext ''a<b'')) < int (mem_avail ?st)"
      by (simp only: td) simp
    note safe = escaped_text_is_safe_markup [OF initialised_module_imported heap_module_imported(3) h3 h4 h5]
    have "\<exists>r st' v. escape_unicode ?st 0 = Inr (r, st') \<and> unicode_at st' r = Some v \<and>
        no_unescaped (text_of v)"
      using safe u output_fits_I [OF mem] utext_simps(1) [of "''a<b''"] by blast
    moreover have "\<exists>rv st'. escape ?st 0 = Inr (rv, st') \<and>
        obj_at st' rv = Some (Markup (utext ''a&lt;b'')) \<and> no_unescaped (map of_char ''a&lt;b'')"
      using safe by (simp only: e utext_def) blast
    ultimately show ?thesis by blast
  qed
  show ?thesis using hyps concl by blast
qed

text \<open>
  Claim C4. For a codepoint at or above the table size 63 the condition of lines 61 and
  84 is false without any table being read: it is, in every state, also one whose
  tables are empty, where any read would be out of bounds. No run of \<^verbatim>\<open>escape_unicode\<close>
  on a well-formed object reads a table or a buffer out of bounds, in the scan pass or
  in the copy pass (the only error is the allocation's), and such a codepoint is copied
  to the output as it is.
\<close>

theorem lookup_short_circuits:
  assumes "initialised st" and "unicode_at st a = Some u" and "PyUnicode_wf u"
    and "\<not> c < of_nat ESCAPED_CHARS_TABLE_SIZE"
  shows "table_cond any_st c = Inr None \<and>
         (\<exists>delta erepl. scan_pass st (str u) (length_u u) 0 0 0 = Inr (delta, erepl)) \<and>
         (\<forall>e. escape_unicode st a = Inl e \<longrightarrow> e = MemoryError) \<and>
         (\<forall>r st' v ys zs. escape_unicode st a = Inr (r, st') \<and> unicode_at st' r = Some v \<and>
              text_of u = ys @ c # zs \<longrightarrow>
            text_of v = escape_text_spec ys @ c # escape_text_spec zs)"
proof -
  have img: "replacement_image c = [c]"
    using assms(4) by (simp add: not_escapable_above replacement_image_clean)
  have spec: "\<And>ys zs. escape_text_spec (ys @ c # zs) = escape_text_spec ys @ c # escape_text_spec zs"
    by (simp add: escape_text_spec_append escape_text_spec_Cons img)
  have fixed: "match_count (text_of u) = 0 \<Longrightarrow> escape_text_spec (text_of u) = text_of u"
    by (rule escape_text_spec_fixed)
  have res: "\<forall>r st' v. escape_unicode st a = Inr (r, st') \<and> unicode_at st' r = Some v \<longrightarrow>
      text_of v = escape_text_spec (text_of u)"
    using assms(2) fixed
    by (auto simp: escape_unicode_result [OF assms(1-3)] split: if_splits)
  have err: "\<forall>e. escape_unicode st a = Inl e \<longrightarrow> e = MemoryError"
    by (auto simp: escape_unicode_result [OF assms(1-3)] split: if_splits)
  show ?thesis
    using res err spec
    by (simp add: table_cond_above [OF assms(4)] scan_pass_wf [OF assms(1,3)]) metis
qed

theorem lookup_short_circuits_witness:
  "initialised (module_imported 100 [PyUnicode (unicode_of_text [63, 38, 1114111])]) \<and>
   unicode_at (module_imported 100 [PyUnicode (unicode_of_text [63, 38, 1114111])]) 0 = Some (unicode_of_text [63, 38, 1114111]) \<and>
   PyUnicode_wf (unicode_of_text [63, 38, 1114111]) \<and>
   \<not> (1114111 :: Py_UNICODE) < of_nat ESCAPED_CHARS_TABLE_SIZE \<and>
   (table_cond ((module_imported 0 [])\<lparr>escaped_chars_delta_len := [], escaped_chars_repl := []\<rparr>)
     1114111 = Inr None \<and>
   (\<exists>r st' v. escape_unicode (module_imported 100 [PyUnicode (unicode_of_text [63, 38, 1114111])]) 0
        = Inr (r, st') \<and>
      unicode_at st' r = Some v \<and> text_of v = [63, 38, 97, 109, 112, 59, 1114111]))"
proof -
  have hyps: "initialised (module_imported 100 [PyUnicode (unicode_of_text [63, 38, 1114111])]) \<and>
   unicode_at (module_imported 100 [PyUnicode (unicode_of_text [63, 38, 1114111])]) 0 = Some (unicode_of_text [63, 38, 1114111]) \<and>
   PyUnicode_wf (unicode_of_text [63, 38, 1114111]) \<and>
   \<not> (1114111 :: Py_UNICODE) < of_nat ESCAPED_CHARS_TABLE_SIZE"
    by (simp add: ESCAPED_CHARS_TABLE_SIZE_def)
  have concl: "table_cond ((module_imported 0 [])\<lparr>escaped_chars_delta_len := [], escaped_chars_repl := []\<rparr>)
     1114111 = Inr None \<and>
   (\<exists>r st' v. escape_unicode (module_imported 100 [PyUnicode (unicode_of_text [63, 38, 1114111])]) 0
        = Inr (r, st') \<and>
      unicode_at st' r = Some v \<and> text_of v = [63, 38, 97, 109, 112, 59, 1114111])"
  proof -
    let ?u = "unicode_of_text [63, 38, 1114111]"
    let ?st = "module_imported 100 [PyUnicode ?u]"
    have h2: "unicode_at ?st 0 = Some ?u" by simp
    have h4: "\<not> (1114111 :: Py_UNICODE) < of_nat ESCAPED_CHARS_TABLE_SIZE"
      by (simp add: ESCAPED_CHARS_TABLE_SIZE_def)
    have td: "total_delta (text_of ?u) = 4"
      by (simp add: total_delta_def delta_of_def chr_defs)
    have mem: "int (length_u ?u) + total_delta (text_of ?u) < int (mem_avail ?st)"
      by (simp only: td) simp
    have spec: "escape_text_spec [63, 38] = [63, 38, 97, 109, 112, 59]"
      by (simp add: escape_text_spec_def replacement_image_def chr_defs)
    from escape_unicode_post [OF initialised_module_imported h2 wf_unicode_of_text
        output_fits_I [OF mem]]
    obtain r st' v where run: "escape_unicode ?st 0 = Inr (r, st')" "unicode_at st' r = Some v"
      by blast
    have "text_of v = escape_text_spec [63, 38] @ 1114111 # escape_text_spec []"
      using lookup_short_circuits [OF initialised_module_imported h2 wf_unicode_of_text h4] run
      by simp
    then have "text_of v = [63, 38, 97, 109, 112, 59, 1114111]"
      by (simp add: spec) (simp add: escape_text_spec_def)
    then show ?thesis
      using run lookup_short_circuits [OF initialised_module_imported h2 wf_unicode_of_text h4]
      by blast
  qed
  show ?thesis using hyps concl by blast
qed

text \<open>
  Claim C5. For every input sequence with none of the five characters, the scan pass
  counts no match, and \<^verbatim>\<open>escape_unicode\<close> returns the address it was given: the same
  object with the same text, with one more reference, no new object on the heap and no
  memory taken.
\<close>

theorem escape_unicode_clean_shares:
  assumes "initialised st" and "unicode_at st a = Some u" and "PyUnicode_wf u"
    and "\<forall>c\<in>set (text_of u). \<not> escapable c"
  shows "scan_pass st (str u) (length_u u) 0 0 0 = Inr (0, 0) \<and>
         escape_unicode st a = Inr (a, Py_INCREF st a) \<and>
         unicode_at (Py_INCREF st a) a = Some u \<and>
         refcnt_at (Py_INCREF st a) a = map_option Suc (refcnt_at st a) \<and>
         (\<forall>b. obj_at (Py_INCREF st a) b = obj_at st b) \<and>
         length (heap (Py_INCREF st a)) = length (heap st) \<and>
         mem_avail (Py_INCREF st a) = mem_avail st"
proof -
  have mc: "match_count (text_of u) = 0"
    using assms(4) by (simp add: match_count_0)
  then have "total_delta (text_of u) = 0"
    by (rule total_delta_clean)
  then show ?thesis
    using mc assms(2)
    by (simp add: scan_pass_wf [OF assms(1,3)] escape_unicode_result [OF assms(1-3)]
          refcnt_at_INCREF)
qed

theorem escape_unicode_clean_shares_witness:
  "initialised (module_imported 0 [PyUnicode (utext ''hello world'')]) \<and>
   unicode_at (module_imported 0 [PyUnicode (utext ''hello world'')]) 0 = Some (utext ''hello world'') \<and>
   PyUnicode_wf (utext ''hello world'') \<and>
   filter escapable (text_of (utext ''hello world'')) = [] \<and>
   (scan_pass (module_imported 0 [PyUnicode (utext ''hello world'')]) (str (utext ''hello world''))
     (length_u (utext ''hello world'')) 0 0 0
     = Inr (0, 0) \<and>
   (\<exists>st'. escape_unicode (module_imported 0 [PyUnicode (utext ''hello world'')]) 0 = Inr (0, st') \<and>
      unicode_at st' 0 = Some (utext ''hello world'') \<and> length (heap st') = 1 \<and> mem_avail st' = 0))"
proof -
  have hyps: "initialised (module_imported 0 [PyUnicode (utext ''hello world'')]) \<and>
   unicode_at (module_imported 0 [PyUnicode (utext ''hello world'')]) 0 = Some (utext ''hello world'') \<and>
   PyUnicode_wf (utext ''hello world'') \<and>
   filter escapable (text_of (utext ''hello world'')) = []"
    by (simp add: escapable_def chr_defs)
  have concl: "scan_pass (module_imported 0 [PyUnicode (utext ''hello world'')]) (str (utext ''hello world''))
     (length_u (utext ''hello world'')) 0 0 0
     = Inr (0, 0) \<and>
   (\<exists>st'. escape_unicode (module_imported 0 [PyUnicode (utext ''hello world'')]) 0 = Inr (0, st') \<and>
      unicode_at st' 0 = Some (utext ''hello world'') \<and> length (heap st') = 1 \<and> mem_avail st' = 0)"
  proof -
    have h4: "\<forall>c\<in>set (text_of (utext ''hello world'')). \<not> escapable c"
      by (simp add: escapable_def chr_defs)
    have h2: "unicode_at (module_imported 0 [PyUnicode (utext ''hello world'')]) 0 =
        Some (utext ''hello world'')"
      by simp
    show ?thesis
      using escape_unicode_clean_shares [OF initialised_module_imported h2 utext_simps(1) h4]
      by simp
  qed
  show ?thesis using hyps concl by blast
qed

text \<open>
  Claim C6. Applying \<^verbatim>\<open>escape_unicode\<close> to its own output is not idempotent: the second
  output equals the first only if the first has no escapable character, and for every
  input with a \<^verbatim>\<open>&\<close> the first output has a \<^verbatim>\<open>&\<close> and the second differs from it. The
  hypothesis on the memory says that both outputs can be allocated. The witness is the
  example of the claim: \<^verbatim>\<open>&\<close> gives \<^verbatim>\<open>&amp;\<close>, which gives \<^verbatim>\<open>&amp;amp;\<close>.
\<close>

theorem escape_unicode_not_idempotent:
  assumes "initialised st" and "unicode_at st a = Some u" and "PyUnicode_wf u"
    and "length (escape_text_spec (text_of u)) +
         length (escape_text_spec (escape_text_spec (text_of u))) + 2 \<le> mem_avail st"
  shows "\<exists>b st1 v c st2 w.
           escape_unicode st a = Inr (b, st1) \<and> unicode_at st1 b = Some v \<and>
           escape_unicode st1 b = Inr (c, st2) \<and> unicode_at st2 c = Some w \<and>
           text_of v = escape_text_spec (text_of u) \<and> text_of w = escape_text_spec (text_of v) \<and>
           (text_of w = text_of v \<longrightarrow> (\<forall>x\<in>set (text_of v). \<not> escapable x)) \<and>
           (chr_amp \<in> set (text_of u) \<longrightarrow> chr_amp \<in> set (text_of v) \<and> text_of w \<noteq> text_of v)"
proof -
  let ?xs = "text_of u"
  have mem1: "int (length_u u) + total_delta ?xs < int (mem_avail st)"
    using assms(3,4) length_escape_text_spec [of ?xs] by (simp add: wf_length)
  from escape_unicode_post [OF assms(1-3) output_fits_I [OF mem1]]
  obtain b st1 v where first: "escape_unicode st a = Inr (b, st1)" "unicode_at st1 b = Some v"
    and v: "PyUnicode_wf v" "text_of v = escape_text_spec ?xs" and init1: "initialised st1"
    and avail: "mem_avail st \<le> mem_avail st1 + (length (escape_text_spec ?xs) + 1)"
    by blast
  have lv: "length_u v = length (escape_text_spec ?xs)"
    using wf_length [OF v(1)] by (simp add: v(2))
  have mem2: "int (length_u v) + total_delta (text_of v) < int (mem_avail st1)"
    using assms(4) avail length_escape_text_spec [of "escape_text_spec ?xs"]
    by (simp add: lv v(2))
  from escape_unicode_post [OF init1 first(2) v(1) output_fits_I [OF mem2]]
  obtain c st2 w where second: "escape_unicode st1 b = Inr (c, st2)" "unicode_at st2 c = Some w"
    and w: "text_of w = escape_text_spec (text_of v)"
    by blast
  have same: "text_of w = text_of v \<longrightarrow> (\<forall>x\<in>set (text_of v). \<not> escapable x)"
    using escape_text_spec_changes [of "text_of v"] by (auto simp: w match_count_0)
  have amp: "chr_amp \<in> set ?xs \<longrightarrow> chr_amp \<in> set (text_of v) \<and> text_of w \<noteq> text_of v"
  proof
    assume "chr_amp \<in> set ?xs"
    then have "match_count ?xs \<noteq> 0"
      using escapable_amp by (auto simp: match_count_0)
    then have in_v: "chr_amp \<in> set (text_of v)"
      by (simp add: v(2) amp_in_escape_text_spec)
    then have "match_count (text_of v) \<noteq> 0"
      using escapable_amp by (auto simp: match_count_0)
    then show "chr_amp \<in> set (text_of v) \<and> text_of w \<noteq> text_of v"
      using in_v by (simp add: w escape_text_spec_changes)
  qed
  show ?thesis
    using first second v(2) w same amp by blast
qed

theorem escape_unicode_not_idempotent_witness:
  "initialised (module_imported 100 [PyUnicode (utext ''&'')]) \<and>
   unicode_at (module_imported 100 [PyUnicode (utext ''&'')]) 0 = Some (utext ''&'') \<and>
   PyUnicode_wf (utext ''&'') \<and>
   length (escape_text_spec (text_of (utext ''&''))) +
     length (escape_text_spec (escape_text_spec (text_of (utext ''&'')))) + 2 \<le> mem_avail (module_imported 100 [PyUnicode (utext ''&'')]) \<and>
   (\<exists>b st1 v c st2 w.
     escape_unicode (module_imported 100 [PyUnicode (utext ''&'')]) 0 = Inr (b, st1) \<and>
     unicode_at st1 b = Some v \<and> escape_unicode st1 b = Inr (c, st2) \<and> unicode_at st2 c = Some w \<and>
     text_of v = map of_char ''&amp;'' \<and> text_of w = map of_char ''&amp;amp;'' \<and>
     text_of w \<noteq> text_of v)"
proof -
  have hyps: "initialised (module_imported 100 [PyUnicode (utext ''&'')]) \<and>
   unicode_at (module_imported 100 [PyUnicode (utext ''&'')]) 0 = Some (utext ''&'') \<and>
   PyUnicode_wf (utext ''&'') \<and>
   length (escape_text_spec (text_of (utext ''&''))) +
     length (escape_text_spec (escape_text_spec (text_of (utext ''&'')))) + 2 \<le> mem_avail (module_imported 100 [PyUnicode (utext ''&'')])"
    by (simp add: escape_text_spec_def replacement_image_def chr_defs)
  have concl: "\<exists>b st1 v c st2 w.
     escape_unicode (module_imported 100 [PyUnicode (utext ''&'')]) 0 = Inr (b, st1) \<and>
     unicode_at st1 b = Some v \<and> escape_unicode st1 b = Inr (c, st2) \<and> unicode_at st2 c = Some w \<and>
     text_of v = map of_char ''&amp;'' \<and> text_of w = map of_char ''&amp;amp;'' \<and>
     text_of w \<noteq> text_of v"
  proof -
    let ?u = "utext ''&''"
    let ?st = "module_imported 100 [PyUnicode ?u]"
    have h2: "unicode_at ?st 0 = Some ?u" by simp
    have e1: "escape_text_spec (text_of ?u) = map of_char ''&amp;''"
      by (simp add: escape_text_spec_def replacement_image_def chr_defs)
    have e2: "escape_text_spec (map of_char ''&amp;'') = map of_char ''&amp;amp;''"
      by (simp add: escape_text_spec_def replacement_image_def chr_defs)
    have mem: "length (escape_text_spec (text_of ?u)) +
           length (escape_text_spec (escape_text_spec (text_of ?u))) + 2 \<le> mem_avail ?st"
      by (simp only: e1 e2) simp
    have amp: "chr_amp \<in> set (text_of ?u)"
      by (simp add: chr_defs)
    from escape_unicode_not_idempotent [OF initialised_module_imported h2 utext_simps(1) mem]
    obtain b st1 v c st2 w where
      run: "escape_unicode ?st 0 = Inr (b, st1)" "unicode_at st1 b = Some v"
        "escape_unicode st1 b = Inr (c, st2)" "unicode_at st2 c = Some w"
      and v: "text_of v = escape_text_spec (text_of ?u)"
      and w: "text_of w = escape_text_spec (text_of v)"
      and ne: "chr_amp \<in> set (text_of ?u) \<longrightarrow> chr_amp \<in> set (text_of v) \<and> text_of w \<noteq> text_of v"
      by blast
    have tv: "text_of v = map of_char ''&amp;''"
      by (simp only: v e1)
    have tw: "text_of w = map of_char ''&amp;amp;''"
      by (simp only: w tv e2)
    have "text_of w \<noteq> text_of v"
      using ne amp by blast
    then show ?thesis
      using run tv tw by blast
  qed
  show ?thesis using hyps concl by blast
qed

text \<open>
  Claim C7. \<^verbatim>\<open>escape_unicode\<close> is total on well-formed unicode objects: the three loops
  of the model terminate (they are total functions), the call returns an object whenever
  the memory for the output is there, and the only error it can return is that of the
  allocation. The empty input takes the fast path whatever the memory: the input itself
  is returned, and nothing is allocated.
\<close>

theorem escape_unicode_total:
  assumes "initialised st" and "unicode_at st a = Some u" and "PyUnicode_wf u"
  shows "(output_fits st u \<longrightarrow> (\<exists>r st'. escape_unicode st a = Inr (r, st'))) \<and>
         (\<forall>e. escape_unicode st a = Inl e \<longrightarrow> e = MemoryError \<and> \<not> output_fits st u) \<and>
         (text_of u = [] \<longrightarrow>
            escape_unicode st a = Inr (a, Py_INCREF st a) \<and>
            unicode_at (Py_INCREF st a) a = Some u \<and>
            length (heap (Py_INCREF st a)) = length (heap st) \<and>
            mem_avail (Py_INCREF st a) = mem_avail st)"
proof -
  have len: "int (length (escape_text_spec (text_of u))) = int (length_u u) + total_delta (text_of u)"
    using assms(3) by (simp add: length_escape_text_spec wf_length)
  have "text_of u = [] \<Longrightarrow> match_count (text_of u) = 0"
    by (simp add: match_count_def)
  then show ?thesis
    using len assms(2)
    by (auto simp: escape_unicode_result [OF assms] output_fits_def split: if_splits)
qed

theorem escape_unicode_total_witness:
  "initialised (module_imported 100 [PyUnicode (utext ''<&>'')]) \<and>
   unicode_at (module_imported 100 [PyUnicode (utext ''<&>'')]) 0 = Some (utext ''<&>'') \<and>
   PyUnicode_wf (utext ''<&>'') \<and>
   output_fits (module_imported 100 [PyUnicode (utext ''<&>'')]) (utext ''<&>'') \<and>
   initialised (module_imported 0 [PyUnicode (utext [])]) \<and>
   unicode_at (module_imported 0 [PyUnicode (utext [])]) 0 = Some (utext []) \<and>
   PyUnicode_wf (utext []) \<and>
   text_of (utext []) = [] \<and>
   ((\<exists>r st'. escape_unicode (module_imported 100 [PyUnicode (utext ''<&>'')]) 0 = Inr (r, st')) \<and>
   escape_unicode (module_imported 0 [PyUnicode (utext [])]) 0 =
     Inr (0, Py_INCREF (module_imported 0 [PyUnicode (utext [])]) 0) \<and>
   unicode_at (Py_INCREF (module_imported 0 [PyUnicode (utext [])]) 0) 0 = Some (utext []) \<and>
   length (heap (Py_INCREF (module_imported 0 [PyUnicode (utext [])]) 0)) = 1 \<and>
   mem_avail (Py_INCREF (module_imported 0 [PyUnicode (utext [])]) 0) = 0)"
proof -
  have hyps: "initialised (module_imported 100 [PyUnicode (utext ''<&>'')]) \<and>
   unicode_at (module_imported 100 [PyUnicode (utext ''<&>'')]) 0 = Some (utext ''<&>'') \<and>
   PyUnicode_wf (utext ''<&>'') \<and>
   output_fits (module_imported 100 [PyUnicode (utext ''<&>'')]) (utext ''<&>'') \<and>
   initialised (module_imported 0 [PyUnicode (utext [])]) \<and>
   unicode_at (module_imported 0 [PyUnicode (utext [])]) 0 = Some (utext []) \<and>
   PyUnicode_wf (utext []) \<and>
   text_of (utext []) = []"
    by (simp add: output_fits_def total_delta_def delta_of_def chr_defs)
  have concl: "(\<exists>r st'. escape_unicode (module_imported 100 [PyUnicode (utext ''<&>'')]) 0 = Inr (r, st')) \<and>
   escape_unicode (module_imported 0 [PyUnicode (utext [])]) 0 =
     Inr (0, Py_INCREF (module_imported 0 [PyUnicode (utext [])]) 0) \<and>
   unicode_at (Py_INCREF (module_imported 0 [PyUnicode (utext [])]) 0) 0 = Some (utext []) \<and>
   length (heap (Py_INCREF (module_imported 0 [PyUnicode (utext [])]) 0)) = 1 \<and>
   mem_avail (Py_INCREF (module_imported 0 [PyUnicode (utext [])]) 0) = 0"
  proof -
    have td: "total_delta (text_of (utext ''<&>'')) = 10"
      by (simp add: total_delta_def delta_of_def chr_defs)
    have h2: "unicode_at (module_imported 100 [PyUnicode (utext ''<&>'')]) 0 = Some (utext ''<&>'')"
      by simp
    have fits: "output_fits (module_imported 100 [PyUnicode (utext ''<&>'')]) (utext ''<&>'')"
      by (rule output_fits_I, simp only: td) simp
    have a: "\<exists>r st'. escape_unicode (module_imported 100 [PyUnicode (utext ''<&>'')]) 0 = Inr (r, st')"
      using escape_unicode_total [OF initialised_module_imported h2 utext_simps(1)] fits
      by blast
    have h2': "unicode_at (module_imported 0 [PyUnicode (utext [])]) 0 = Some (utext [])"
      by simp
    show ?thesis
      using a escape_unicode_total [OF initialised_module_imported h2' utext_simps(1)]
      by simp
  qed
  show ?thesis using hyps concl by blast
qed

text \<open>
  Claim C8 as it is stated speaks of every numeric value. The tests of lines 117 to 119
  are for the exact types int, long and float: a complex number is numeric and passes
  none of them (nor does an instance of a subclass of int), so \<^verbatim>\<open>escape\<close> converts it
  to text and gives the text to \<^verbatim>\<open>escape_unicode\<close>. For \<^verbatim>\<open>1+2j\<close> the call of \<^verbatim>\<open>markup\<close>
  on the value would return the object at address 1; \<^verbatim>\<open>escape\<close> returns the one at
  address 2, made from what \<^verbatim>\<open>escape_unicode\<close> returned for the unicode object at
  address 1.
\<close>

theorem escape_scans_complex_counterexample:
  "(\<exists>st'. PyObject_CallFunctionObjArgs (module_imported 30 [PyComplex (map of_char ''(1+2j)'')])
            (markup (module_imported 30 [PyComplex (map of_char ''(1+2j)'')])) (Some 0) = Inr (1, st')) \<and>
   (\<exists>unicode st1.
      PyObject_Unicode (module_imported 30 [PyComplex (map of_char ''(1+2j)'')]) 0 = Inr (unicode, st1) \<and>
      unicode_at st1 unicode = Some (utext ''(1+2j)'') \<and>
      escape (module_imported 30 [PyComplex (map of_char ''(1+2j)'')]) 0 =
        wrap_markup (case escape_unicode st1 unicode of Inl e \<Rightarrow> Inl e
                     | Inr (s, st2) \<Rightarrow> Inr (s, Py_DECREF st2 unicode))) \<and>
   (\<exists>st'. escape (module_imported 30 [PyComplex (map of_char ''(1+2j)'')]) 0 = Inr (2, st') \<and>
      obj_at st' 2 = Some (Markup (utext ''(1+2j)''))) \<and>
   escape (module_imported 30 [PyComplex (map of_char ''(1+2j)'')]) 0 \<noteq>
     PyObject_CallFunctionObjArgs (module_imported 30 [PyComplex (map of_char ''(1+2j)'')])
       (markup (module_imported 30 [PyComplex (map of_char ''(1+2j)'')])) (Some 0)"
proof -
  define t :: "Py_UNICODE list" where "t = map of_char ''(1+2j)''"
  define st where "st = module_imported 30 [PyComplex t]"
  define st1 where "st1 = st\<lparr>heap := heap st @ [Some (1, PyUnicode (unicode_of_text t))],
      mem_avail := mem_avail st - cells_of (PyUnicode (unicode_of_text t))\<rparr>"
  have ob: "obj_at st 0 = Some (PyComplex t)"
    and init: "initialised st" and mk: "markup st = Some Markup_class"
    and hp: "length (heap st) = 1" and av: "mem_avail st = 30"
    by (simp_all add: st_def)
  have len: "length t = 6" by (simp add: t_def)
  have direct: "\<exists>st'. PyObject_CallFunctionObjArgs st (markup st) (Some 0) = Inr (1, st')"
    by (simp add: PyObject_CallFunctionObjArgs_def alloc_object_ok mk ob len av hp)
  have c1: "PyObject_Unicode st 0 = Inr (length (heap st), st1)"
    by (simp add: PyObject_Unicode_def alloc_object_ok st1_def ob len av)
  have c2: "unicode_at st1 (length (heap st)) = Some (unicode_of_text t)"
    by (simp add: st1_def unicode_at_def)
  have c3: "escape st 0 =
      wrap_markup (case escape_unicode st1 (length (heap st)) of Inl e \<Rightarrow> Inl e
                   | Inr (s, st2) \<Rightarrow> Inr (s, Py_DECREF st2 (length (heap st))))"
    by (simp add: escape_def PyObject_GetAttrString_html_def c1 ob)
  have e: "escape_text_spec t = t" and mc: "match_count t = 0"
    by (simp_all add: t_def escape_text_spec_def replacement_image_def match_count_def
          escapable_def chr_defs)
  have mem: "3 * (length (escape_text_spec t) + 1) \<le> mem_avail st"
    by (simp add: e len av)
  from escape_of_other [OF init mk ob _ mem]
  have run: "\<exists>st'. escape st 0 = Inr (2, st') \<and> obj_at st' 2 = Some (Markup (unicode_of_text t))"
    by (simp add: mc e hp numeral_2_eq_2)
  have "escape st 0 \<noteq> PyObject_CallFunctionObjArgs st (markup st) (Some 0)"
    using run direct by auto
  then have "(\<exists>st'. PyObject_CallFunctionObjArgs st (markup st) (Some 0) = Inr (1, st')) \<and>
   (\<exists>unicode st1.
      PyObject_Unicode st 0 = Inr (unicode, st1) \<and>
      unicode_at st1 unicode = Some (unicode_of_text t) \<and>
      escape st 0 =
        wrap_markup (case escape_unicode st1 unicode of Inl e \<Rightarrow> Inl e
                     | Inr (s, st2) \<Rightarrow> Inr (s, Py_DECREF st2 unicode))) \<and>
   (\<exists>st'. escape st 0 = Inr (2, st') \<and> obj_at st' 2 = Some (Markup (unicode_of_text t))) \<and>
   escape st 0 \<noteq> PyObject_CallFunctionObjArgs st (markup st) (Some 0)"
    using direct c1 c2 c3 run by blast
  then show ?thesis
    unfolding st_def t_def utext_def .
qed

text \<open>
  Claim C8, amended. For a value whose type is exactly int, long or float, for a bool
  and for \<^verbatim>\<open>None\<close>, \<^verbatim>\<open>escape\<close> is the call of \<^verbatim>\<open>markup\<close> on the value and nothing else:
  the only change of the state is the new \<^verbatim>\<open>Markup\<close> object, whose text is the value's
  text as it is (never scanned: an escapable character in it would stay). In particular
  the text of 42 is \<^verbatim>\<open>42\<close>. The \<^verbatim>\<open>Markup\<close> class and the text of a value are modelled
  from the specification.
\<close>

theorem escape_bypasses_numbers:
  assumes "markup st = Some Markup_class" and "obj_at st a = Some ob"
    and "PyInt_CheckExact ob \<or> PyLong_CheckExact ob \<or> PyFloat_CheckExact ob \<or>
         PyBool_Check ob \<or> ob = Py_None"
    and "text_conversion ob = Inr t" and "length t < mem_avail st"
  shows "escape st a = PyObject_CallFunctionObjArgs st (markup st) (Some a) \<and>
         escape st a = Inr (length (heap st),
           st\<lparr>heap := heap st @ [Some (1, Markup (unicode_of_text t))],
              mem_avail := mem_avail st - (length t + 1)\<rparr>) \<and>
         text_conversion (PyInt 42) = Inr (map of_char ''42'')"
  using assms
  by (simp add: escape_def PyObject_CallFunctionObjArgs_def alloc_object_ok decimal_42)

theorem escape_bypasses_numbers_witness:
  "markup (module_imported 10 [PyInt 42]) = Some Markup_class \<and>
   obj_at (module_imported 10 [PyInt 42]) 0 = Some (PyInt 42) \<and>
   PyInt_CheckExact (PyInt 42) \<and>
   text_conversion (PyInt 42) = Inr (map of_char ''42'') \<and>
   length (map of_char ''42'' :: Py_UNICODE list) < mem_avail (module_imported 10 [PyInt 42]) \<and>
   (escape (module_imported 10 [PyInt 42]) 0 =
     Inr (1, (module_imported 10 [PyInt 42])
               \<lparr>heap := heap (module_imported 10 [PyInt 42]) @ [Some (1, Markup (utext ''42''))],
                  mem_avail := 7\<rparr>) \<and>
   escape (module_imported 10 [PyFloat (map of_char ''1<2'')]) 0 =
     Inr (1, (module_imported 10 [PyFloat (map of_char ''1<2'')])
               \<lparr>heap := heap (module_imported 10 [PyFloat (map of_char ''1<2'')]) @
                    [Some (1, Markup (utext ''1<2''))],
                  mem_avail := 6\<rparr>))"
proof -
  have hyps: "markup (module_imported 10 [PyInt 42]) = Some Markup_class \<and>
   obj_at (module_imported 10 [PyInt 42]) 0 = Some (PyInt 42) \<and>
   PyInt_CheckExact (PyInt 42) \<and>
   text_conversion (PyInt 42) = Inr (map of_char ''42'') \<and>
   length (map of_char ''42'' :: Py_UNICODE list) < mem_avail (module_imported 10 [PyInt 42])"
    by (simp add: decimal_42)
  have concl: "escape (module_imported 10 [PyInt 42]) 0 =
     Inr (1, (module_imported 10 [PyInt 42])
               \<lparr>heap := heap (module_imported 10 [PyInt 42]) @ [Some (1, Markup (utext ''42''))],
                  mem_avail := 7\<rparr>) \<and>
   escape (module_imported 10 [PyFloat (map of_char ''1<2'')]) 0 =
     Inr (1, (module_imported 10 [PyFloat (map of_char ''1<2'')])
               \<lparr>heap := heap (module_imported 10 [PyFloat (map of_char ''1<2'')]) @
                    [Some (1, Markup (utext ''1<2''))],
                  mem_avail := 6\<rparr>)"
  proof -
    let ?st = "module_imported 10 [PyInt 42]"
    have h2: "obj_at ?st 0 = Some (PyInt 42)" by simp
    have h3: "PyInt_CheckExact (PyInt 42) \<or> PyLong_CheckExact (PyInt 42) \<or>
        PyFloat_CheckExact (PyInt 42) \<or> PyBool_Check (PyInt 42) \<or> PyInt 42 = Py_None"
      by simp
    have h4: "text_conversion (PyInt 42) = Inr (map of_char ''42'')"
      by (simp add: decimal_42)
    have h5: "length (map of_char ''42'' :: Py_UNICODE list) < mem_avail ?st" by simp
    from escape_bypasses_numbers [OF heap_module_imported(3) h2 h3 h4 h5]
    have "escape ?st 0 = Inr (length (heap ?st),
             ?st\<lparr>heap := heap ?st @ [Some (1, Markup (unicode_of_text (map of_char ''42'')))],
                mem_avail := mem_avail ?st - (length (map of_char ''42'' :: Py_UNICODE list) + 1)\<rparr>)"
      by blast
    then have a: "escape ?st 0 =
       Inr (1, ?st\<lparr>heap := heap ?st @ [Some (1, Markup (utext ''42''))], mem_avail := 7\<rparr>)"
      by (simp add: utext_def)
    let ?st' = "module_imported 10 [PyFloat (map of_char ''1<2'')]"
    let ?f = "PyFloat (map of_char ''1<2'')"
    have g2: "obj_at ?st' 0 = Some ?f" by simp
    have g3: "PyInt_CheckExact ?f \<or> PyLong_CheckExact ?f \<or> PyFloat_CheckExact ?f \<or>
        PyBool_Check ?f \<or> ?f = Py_None"
      by simp
    have g4: "text_conversion ?f = Inr (map of_char ''1<2'')" by simp
    have g5: "length (map of_char ''1<2'' :: Py_UNICODE list) < mem_avail ?st'" by simp
    from escape_bypasses_numbers [OF heap_module_imported(3) g2 g3 g4 g5]
    have "escape ?st' 0 = Inr (length (heap ?st'),
             ?st'\<lparr>heap := heap ?st' @ [Some (1, Markup (unicode_of_text (map of_char ''1<2'')))],
                mem_avail := mem_avail ?st' - (length (map of_char ''1<2'' :: Py_UNICODE list) + 1)\<rparr>)"
      by blast
    then have b: "escape ?st' 0 =
       Inr (1, ?st'\<lparr>heap := heap ?st' @ [Some (1, Markup (utext ''1<2''))], mem_avail := 6\<rparr>)"
      by (simp add: utext_def)
    show ?thesis using a b by blast
  qed
  show ?thesis using hyps concl by blast
qed

text \<open>
  Claim C9. \<^verbatim>\<open>soft_unicode\<close> returns a value that is already a text sequence, a
  \<^verbatim>\<open>Markup\<close> object included (\<^verbatim>\<open>PyUnicode_Check\<close> accepts the subtype), as it is: the same
  address, with one more reference and every object of the heap unchanged. For any
  other value it returns what \<^verbatim>\<open>PyObject_Unicode\<close> returns: a new unicode object with the
  value's text, when the conversion succeeds and the memory is there.
\<close>

theorem soft_unicode_keeps_text:
  assumes "obj_at st s = Some ob"
  shows "PyUnicode_Check (PyUnicode u) \<and> PyUnicode_Check (Markup u) \<and>
         (PyUnicode_Check ob \<longrightarrow>
            soft_unicode st s = Inr (s, Py_INCREF st s) \<and>
            (\<forall>b. obj_at (Py_INCREF st s) b = obj_at st b) \<and>
            length (heap (Py_INCREF st s)) = length (heap st) \<and>
            mem_avail (Py_INCREF st s) = mem_avail st) \<and>
         (\<not> PyUnicode_Check ob \<longrightarrow>
            soft_unicode st s = PyObject_Unicode st s \<and>
            (\<forall>t. text_conversion ob = Inr t \<and> length t < mem_avail st \<longrightarrow>
               soft_unicode st s = Inr (length (heap st),
                 st\<lparr>heap := heap st @ [Some (1, PyUnicode (unicode_of_text t))],
                    mem_avail := mem_avail st - (length t + 1)\<rparr>)))"
proof -
  have "soft_unicode st s = Inr (length (heap st),
                 st\<lparr>heap := heap st @ [Some (1, PyUnicode (unicode_of_text t))],
                    mem_avail := mem_avail st - (length t + 1)\<rparr>)"
    if "\<not> PyUnicode_Check ob" and "text_conversion ob = Inr t" and "length t < mem_avail st" for t
    using that assms
    by (cases ob) (simp_all add: soft_unicode_def PyObject_Unicode_def alloc_object_ok)
  then show ?thesis
    using assms by (simp add: soft_unicode_def)
qed

theorem soft_unicode_keeps_text_witness:
  "obj_at (module_imported 10 [Markup (utext ''<b>'')]) 0 = Some (Markup (utext ''<b>'')) \<and>
   PyUnicode_Check (Markup (utext ''<b>'')) \<and>
   obj_at (module_imported 10 [PyInt 42]) 0 = Some (PyInt 42) \<and>
   \<not> PyUnicode_Check (PyInt 42) \<and>
   text_conversion (PyInt 42) = Inr (map of_char ''42'') \<and>
   length (map of_char ''42'' :: Py_UNICODE list) < mem_avail (module_imported 10 [PyInt 42]) \<and>
   (soft_unicode (module_imported 10 [Markup (utext ''<b>'')]) 0 =
     Inr (0, Py_INCREF (module_imported 10 [Markup (utext ''<b>'')]) 0) \<and>
   obj_at (Py_INCREF (module_imported 10 [Markup (utext ''<b>'')]) 0) 0 = Some (Markup (utext ''<b>'')) \<and>
   length (heap (Py_INCREF (module_imported 10 [Markup (utext ''<b>'')]) 0)) = 1 \<and>
   soft_unicode (module_imported 10 [PyInt 42]) 0 =
     Inr (1, (module_imported 10 [PyInt 42])
               \<lparr>heap := heap (module_imported 10 [PyInt 42]) @ [Some (1, PyUnicode (utext ''42''))],
                  mem_avail := 7\<rparr>))"
proof -
  have hyps: "obj_at (module_imported 10 [Markup (utext ''<b>'')]) 0 = Some (Markup (utext ''<b>'')) \<and>
   PyUnicode_Check (Markup (utext ''<b>'')) \<and>
   obj_at (module_imported 10 [PyInt 42]) 0 = Some (PyInt 42) \<and>
   \<not> PyUnicode_Check (PyInt 42) \<and>
   text_conversion (PyInt 42) = Inr (map of_char ''42'') \<and>
   length (map of_char ''42'' :: Py_UNICODE list) < mem_avail (module_imported 10 [PyInt 42])"
    by (simp add: decimal_42)
  have concl: "soft_unicode (module_imported 10 [Markup (utext ''<b>'')]) 0 =
     Inr (0, Py_INCREF (module_imported 10 [Markup (utext ''<b>'')]) 0) \<and>
   obj_at (Py_INCREF (module_imported 10 [Markup (utext ''<b>'')]) 0) 0 = Some (Markup (utext ''<b>'')) \<and>
   length (heap (Py_INCREF (module_imported 10 [Markup (utext ''<b>'')]) 0)) = 1 \<and>
   soft_unicode (module_imported 10 [PyInt 42]) 0 =
     Inr (1, (module_imported 10 [PyInt 42])
               \<lparr>heap := heap (module_imported 10 [PyInt 42]) @ [Some (1, PyUnicode (utext ''42''))],
                  mem_avail := 7\<rparr>)"
  proof -
    let ?st = "module_imported 10 [Markup (utext ''<b>'')]"
    have h: "obj_at ?st 0 = Some (Markup (utext ''<b>''))" by simp
    from soft_unicode_keeps_text [OF h]
    have a: "soft_unicode ?st 0 = Inr (0, Py_INCREF ?st 0)"
      and b: "\<forall>b. obj_at (Py_INCREF ?st 0) b = obj_at ?st b"
      and c: "length (heap (Py_INCREF ?st 0)) = length (heap ?st)"
      by simp_all
    have b': "obj_at (Py_INCREF ?st 0) 0 = Some (Markup (utext ''<b>''))"
      using b h by simp
    let ?st' = "module_imported 10 [PyInt 42]"
    have g: "obj_at ?st' 0 = Some (PyInt 42)" by simp
    have conv: "text_conversion (PyInt 42) = Inr (map of_char ''42'') \<and>
        length (map of_char ''42'' :: Py_UNICODE list) < mem_avail ?st'"
      by (simp add: decimal_42)
    from soft_unicode_keeps_text [OF g] conv
    have "soft_unicode ?st' 0 = Inr (length (heap ?st'),
        ?st'\<lparr>heap := heap ?st' @ [Some (1, PyUnicode (unicode_of_text (map of_char ''42'')))],
           mem_avail := mem_avail ?st' - (length (map of_char ''42'' :: Py_UNICODE list) + 1)\<rparr>)"
      by (metis PyUnicode_Check.simps(3))
    then have d: "soft_unicode ?st' 0 =
       Inr (1, ?st'\<lparr>heap := heap ?st' @ [Some (1, PyUnicode (utext ''42''))], mem_avail := 7\<rparr>)"
      by (simp add: utext_def)
    show ?thesis using a b' c d by simp
  qed
  show ?thesis using hyps concl by blast
qed

text \<open>
  Claim C10. A zero codepoint inside the input does not stop \<^verbatim>\<open>escape_unicode\<close>: the
  scan loop goes on at a zero cell that lies before the end pointer, the scan pass counts
  the matches on both sides of it, and the output is the escaped text before it, the
  zero, and the escaped text after it.
\<close>

theorem embedded_NUL_does_not_stop:
  assumes "initialised st" and "unicode_at st a = Some u" and "PyUnicode_wf u"
    and "output_fits st u"
    and "text_of u = xs @ 0 # ys"
  shows "(\<forall>buf inp_end inp delta erepl. inp < inp_end \<and> inp < length buf \<and> buf ! inp = 0 \<longrightarrow>
            scan_pass st buf inp_end inp delta erepl =
            scan_pass st buf inp_end (Suc inp) delta erepl) \<and>
         scan_pass st (str u) (length_u u) 0 0 0 =
           Inr (total_delta xs + total_delta ys, int (match_count xs + match_count ys)) \<and>
         (\<exists>r st' v. escape_unicode st a = Inr (r, st') \<and> unicode_at st' r = Some v \<and>
            text_of v = escape_text_spec xs @ 0 # escape_text_spec ys)"
proof -
  from escape_unicode_post [OF assms(1-4)]
  have "\<exists>r st' v. escape_unicode st a = Inr (r, st') \<and> unicode_at st' r = Some v \<and>
            text_of v = escape_text_spec xs @ 0 # escape_text_spec ys"
    by (auto simp: assms(5) escape_text_spec_NUL)
  moreover have "scan_pass st (str u) (length_u u) 0 0 0 =
           Inr (total_delta xs + total_delta ys, int (match_count xs + match_count ys))"
    by (simp only: scan_pass_wf [OF assms(1,3)] assms(5) total_delta_NUL match_count_NUL)
  ultimately show ?thesis
    using scan_pass_NUL_step [OF assms(1)] by blast
qed

theorem embedded_NUL_does_not_stop_witness:
  "initialised (module_imported 100 [PyUnicode (unicode_of_text [97, 0, 60, 0, 38])]) \<and>
   unicode_at (module_imported 100 [PyUnicode (unicode_of_text [97, 0, 60, 0, 38])]) 0 = Some (unicode_of_text [97, 0, 60, 0, 38]) \<and>
   PyUnicode_wf (unicode_of_text [97, 0, 60, 0, 38]) \<and>
   output_fits (module_imported 100 [PyUnicode (unicode_of_text [97, 0, 60, 0, 38])]) (unicode_of_text [97, 0, 60, 0, 38]) \<and>
   text_of (unicode_of_text [97, 0, 60, 0, 38]) = [97] @ 0 # [60, 0, 38] \<and>
   (scan_pass (module_imported 100 [PyUnicode (unicode_of_text [97, 0, 60, 0, 38])])
      (str (unicode_of_text [97, 0, 60, 0, 38])) (length_u (unicode_of_text [97, 0, 60, 0, 38])) 0 0 0
     = Inr (7, 2) \<and>
   (\<exists>r st' v. escape_unicode (module_imported 100 [PyUnicode (unicode_of_text [97, 0, 60, 0, 38])]) 0
        = Inr (r, st') \<and>
      unicode_at st' r = Some v \<and> text_of v = [97, 0, 38, 108, 116, 59, 0, 38, 97, 109, 112, 59]))"
proof -
  have hyps: "initialised (module_imported 100 [PyUnicode (unicode_of_text [97, 0, 60, 0, 38])]) \<and>
   unicode_at (module_imported 100 [PyUnicode (unicode_of_text [97, 0, 60, 0, 38])]) 0 = Some (unicode_of_text [97, 0, 60, 0, 38]) \<and>
   PyUnicode_wf (unicode_of_text [97, 0, 60, 0, 38]) \<and>
   output_fits (module_imported 100 [PyUnicode (unicode_of_text [97, 0, 60, 0, 38])]) (unicode_of_text [97, 0, 60, 0, 38]) \<and>
   text_of (unicode_of_text [97, 0, 60, 0, 38]) = [97] @ 0 # [60, 0, 38]"
    by (simp add: output_fits_def total_delta_def delta_of_def chr_defs)
  have concl: "scan_pass (module_imported 100 [PyUnicode (unicode_of_text [97, 0, 60, 0, 38])])
      (str (unicode_of_text [97, 0, 60, 0, 38])) (length_u (unicode_of_text [97, 0, 60, 0, 38])) 0 0 0
     = Inr (7, 2) \<and>
   (\<exists>r st' v. escape_unicode (module_imported 100 [PyUnicode (unicode_of_text [97, 0, 60, 0, 38])]) 0
        = Inr (r, st') \<and>
      unicode_at st' r = Some v \<and> text_of v = [97, 0, 38, 108, 116, 59, 0, 38, 97, 109, 112, 59])"
  proof -
    let ?u = "unicode_of_text [97, 0, 60, 0, 38]"
    let ?st = "module_imported 100 [PyUnicode ?u]"
    have h2: "unicode_at ?st 0 = Some ?u" by simp
    have td: "total_delta (text_of ?u) = 7"
      by (simp add: total_delta_def delta_of_def chr_defs)
    have mem: "int (length_u ?u) + total_delta (text_of ?u) < int (mem_avail ?st)"
      by (simp only: td) simp
    have h5: "text_of ?u = [97] @ 0 # [60, 0, 38]" by simp
    have e1: "escape_text_spec [97] = [97]"
      and e2: "escape_text_spec [60, 0, 38] = [38, 108, 116, 59, 0, 38, 97, 109, 112, 59]"
      by (simp_all add: escape_text_spec_def replacement_image_def chr_defs)
    have t1: "total_delta [97] = 0" and t2: "total_delta [60, 0, 38] = 7"
      by (simp_all add: total_delta_def delta_of_def chr_defs)
    have m1: "match_count [97] = 0" and m2: "match_count [60, 0, 38] = 2"
      by (simp_all add: match_count_def escapable_def chr_defs)
    show ?thesis
      using embedded_NUL_does_not_stop [OF initialised_module_imported h2 wf_unicode_of_text
          output_fits_I [OF mem] h5]
      by (simp only: e1 e2 t1 t2 m1 m2) simp
  qed
  show ?thesis using hyps concl by blast
qed

end
